theory Spec2Isabelle
  imports Main "HOL-Library.AList"
begin

section \<open>JSON values as JavaScript sees them\<close>

text \<open>
  The two command-line clients (\<^verbatim>\<open>notion-query.js\<close> and \<^verbatim>\<open>office-cli.js\<close>) inspect
  parsed JSON by duck typing: field reads, truthiness, \<^verbatim>\<open>||\<close>, \<^verbatim>\<open>===\<close> and object spread.
  A parsed JSON value is a \<open>json\<close>; a JavaScript value that may be \<^verbatim>\<open>undefined\<close> is a
  \<open>json option\<close> with \<open>None\<close> for \<^verbatim>\<open>undefined\<close>. An object is an association list that is
  read with \<open>map_of\<close>. JSON numbers are only ever tested for truthiness by the code
  modelled here, so they are kept as integers.
\<close>

datatype json =
    JNull
  | JBool bool
  | JNum int
  | JStr string
  | JArr "json list"
  | JObj "(string \<times> json) list"

type_synonym jsval = "json option"

text \<open>JavaScript truthiness (\<^verbatim>\<open>ToBoolean\<close>).\<close>

fun truthy :: "jsval \<Rightarrow> bool" where
  "truthy None = False"
| "truthy (Some JNull) = False"
| "truthy (Some (JBool b)) = b"
| "truthy (Some (JNum n)) = (n \<noteq> 0)"
| "truthy (Some (JStr s)) = (s \<noteq> [])"
| "truthy (Some (JArr xs)) = True"
| "truthy (Some (JObj kvs)) = True"

text \<open>\<^verbatim>\<open>a || b\<close>\<close>

definition jor :: "jsval \<Rightarrow> jsval \<Rightarrow> jsval" where
  "jor a b = (if truthy a then a else b)"

text \<open>Decimal rendering of an array index, the property key of an array element.\<close>

fun show_nat :: "nat \<Rightarrow> string" where
  "show_nat n =
     (if n < 10 then [''0123456789'' ! n]
      else show_nat (n div 10) @ [''0123456789'' ! (n mod 10)])"

declare show_nat.simps [simp del]

text \<open>
  The own enumerable properties of a value, which is what object spread copies: the
  fields of an object, the indexed elements of an array, the indexed characters of a
  string, and nothing for \<^verbatim>\<open>null\<close>, booleans and numbers.
\<close>

fun own_props :: "json \<Rightarrow> (string \<times> json) list" where
  "own_props (JObj kvs) = kvs"
| "own_props (JArr xs) = zip (map show_nat [0..<length xs]) xs"
| "own_props (JStr s) = zip (map show_nat [0..<length s]) (map (\<lambda>c. JStr [c]) s)"
| "own_props JNull = []"
| "own_props (JBool b) = []"
| "own_props (JNum n) = []"

text \<open>
  \<^verbatim>\<open>v.k\<close> on a value that is neither \<^verbatim>\<open>null\<close> nor \<^verbatim>\<open>undefined\<close>. Arrays and strings
  also have \<^verbatim>\<open>length\<close>. None of the keys the clients read is defined on a prototype.
\<close>

fun jget :: "json \<Rightarrow> string \<Rightarrow> jsval" where
  "jget (JArr xs) k =
     (if k = ''length'' then Some (JNum (int (length xs))) else map_of (own_props (JArr xs)) k)"
| "jget (JStr s) k =
     (if k = ''length'' then Some (JNum (int (length s))) else map_of (own_props (JStr s)) k)"
| "jget v k = map_of (own_props v) k"

text \<open>\<^verbatim>\<open>v?.k\<close>: \<^verbatim>\<open>undefined\<close> when \<open>v\<close> is \<^verbatim>\<open>null\<close> or \<^verbatim>\<open>undefined\<close>.\<close>

fun jgetq :: "jsval \<Rightarrow> string \<Rightarrow> jsval" where
  "jgetq None k = None"
| "jgetq (Some JNull) k = None"
| "jgetq (Some v) k = jget v k"

text \<open>\<^verbatim>\<open>typeof v === "object"\<close>\<close>

fun typeof_object :: "jsval \<Rightarrow> bool" where
  "typeof_object (Some JNull) = True"
| "typeof_object (Some (JArr xs)) = True"
| "typeof_object (Some (JObj kvs)) = True"
| "typeof_object v = False"

text \<open>
  \<^verbatim>\<open>a === b\<close>. Objects and arrays are compared by reference, and two values obtained from
  different parses or different fields are never the same reference.
\<close>

fun strict_eq :: "jsval \<Rightarrow> jsval \<Rightarrow> bool" where
  "strict_eq (Some (JArr xs)) b = False"
| "strict_eq (Some (JObj kvs)) b = False"
| "strict_eq a b = (a = b)"

text \<open>\<^verbatim>\<open>{...a, ...b}\<close>: the properties of \<open>a\<close>, overridden and extended by those of \<open>b\<close>.\<close>

definition spread :: "(string \<times> 'v) list \<Rightarrow> (string \<times> 'v) list \<Rightarrow> (string \<times> 'v) list" where
  "spread a b = AList.merge a b"

text \<open>
  Text that the clients build with template strings. The conversion of an interpolated
  value to characters is left to the runtime: a piece is literal text, an interpolated
  JavaScript value, an interpolated number, or an array joined by a separator.
\<close>

datatype piece =
    Lit string
  | Val jsval
  | Num nat
  | Joined "json list" string

type_synonym msg = "piece list"

section \<open>The auth error classifier\<close>

text \<open>The error codes that trigger an automatic grant request.\<close>

definition grant_codes :: "string list" where
  "grant_codes = [''no_grant'', ''grant_expired'', ''single_use_exhausted'']"

text \<open>\<^verbatim>\<open>["no_grant", "grant_expired", "single_use_exhausted"].includes(v)\<close>\<close>

fun includes_grant_code :: "jsval \<Rightarrow> bool" where
  "includes_grant_code (Some (JStr s)) = (s \<in> set grant_codes)"
| "includes_grant_code v = False"

subsection \<open>\<^verbatim>\<open>notion-query.js\<close>\<close>

text \<open>
  \<^verbatim>\<open>normalizeAuthError\<close> lifts the fields of a nested \<^verbatim>\<open>details\<close> object to the top level,
  where they override the top-level fields of the same name.
\<close>

definition normalizeAuthError :: "json \<Rightarrow> json" where
  "normalizeAuthError data =
     (let details =
            (if truthy (jgetq (Some data) ''details'') \<and> typeof_object (jgetq (Some data) ''details'')
             then the (jgetq (Some data) ''details'') else JObj [])
      in JObj (spread (spread [] (own_props (the (jor (Some data) (Some (JObj []))))))
                      (own_props details)))"

definition notion_describeAuthError :: "json \<Rightarrow> msg list" where
  "notion_describeAuthError data =
     (let error = normalizeAuthError data in
      if jget error ''error'' = Some (JStr ''no_agent_session'') then
        [[Lit ''No agent session. Run 'node notion-query.js login' first.'']]
      else if includes_grant_code (jor (jget error ''error'') (Some (JStr ''''))) then
        [[Lit ''No active grant for notion.''],
         [Lit ''''],
         [Lit ''Request access by running:''],
         [Lit ''  node notion-query.js request'']]
      else if jget error ''error'' = Some (JStr ''no_oauth_token'') \<and> truthy (jget error ''connectUrl'') then
        [[Lit ''Notion account not linked.''],
         [Lit ''''],
         [Lit ''Link account at:''],
         [Lit ''  '', Val (jget error ''connectUrl'')]]
      else if truthy (jget error ''reauthorizeUrl'') then
        [[Lit ''Access token expired or missing scopes.'']]
        @ (case jget error ''missingScopes'' of
             Some (JArr xs) \<Rightarrow> (if length xs > 0 then [[Lit ''Missing scopes: '', Joined xs '' '']] else [])
           | _ \<Rightarrow> [])
        @ [[Lit ''''],
           [Lit ''Re-authorize at:''],
           [Lit ''  '', Val (jget error ''reauthorizeUrl'')]]
      else if truthy (jget error ''elevateUrl'') then
        [[Lit ''Additional authorization required.''],
         [Lit ''''],
         [Lit ''Approve at:''],
         [Lit ''  '', Val (jget error ''elevateUrl'')]]
      else if truthy (jget error ''message'') \<or> truthy (jget error ''error'') then
        [[Val (jor (jget error ''message'') (jget error ''error''))]]
      else [])"

definition notion_isAutoRequestError :: "json \<Rightarrow> bool" where
  "notion_isAutoRequestError data =
     (let error = normalizeAuthError data in
      if \<not> truthy (jgetq (Some error) ''error'') then False
      else includes_grant_code (jget error ''error''))"

subsection \<open>\<^verbatim>\<open>office-cli.js\<close>\<close>

text \<open>
  Errors that JavaScript raises by itself; \<open>Error\<close> carries the message of a
  \<^verbatim>\<open>throw new Error(...)\<close>.
\<close>

datatype exn =
    Error msg
  | TypeError
  | SyntaxError
  | FetchFailed

text \<open>
  \<^verbatim>\<open>describeAuthError(data, service)\<close> reads the payload as it is. Reading a field of
  \<^verbatim>\<open>null\<close>, and calling \<^verbatim>\<open>join\<close> on a \<^verbatim>\<open>missingScopes\<close> that is not an array, raise a
  \<^verbatim>\<open>TypeError\<close>. The result carries the lines printed before the function returned or
  raised.
\<close>

definition office_describeAuthError :: "json \<Rightarrow> string \<Rightarrow> exn option \<times> msg list" where
  "office_describeAuthError data service =
     (if data = JNull then (Some TypeError, [])
      else if jget data ''error'' = Some (JStr ''no_agent_session'') then
        (None, [[Lit ''No agent session. Run 'office-cli.js login' to register.'']])
      else if includes_grant_code (jor (jget data ''error'') (Some (JStr ''''))) then
        (None,
         [[Lit ''No active grant for '', Lit service, Lit ''.''],
          [Lit ''''],
          [Lit ''Request access by running:''],
          [Lit ''  ./office-cli.js request '', Lit service]])
      else if jget data ''error'' = Some (JStr ''no_oauth_token'') \<and> truthy (jget data ''connectUrl'') then
        (None,
         [[Lit ''Microsoft account not linked.''],
          [Lit ''''],
          [Lit ''To connect, visit:''],
          [Lit ''  '', Val (jget data ''connectUrl'')]])
      else if truthy (jget data ''reauthorizeUrl'') then
        (if truthy (jgetq (jget data ''missingScopes'') ''length'') then
           (case jget data ''missingScopes'' of
              Some (JArr xs) \<Rightarrow>
                (None,
                 [[Lit ''Access token expired or missing scopes.''],
                  [Lit ''Missing scopes: '', Joined xs '' ''],
                  [Lit ''''],
                  [Lit ''Re-authorise at:''],
                  [Lit ''  '', Val (jget data ''reauthorizeUrl'')]])
            | _ \<Rightarrow> (Some TypeError, [[Lit ''Access token expired or missing scopes.'']]))
         else
           (None,
            [[Lit ''Access token expired or missing scopes.''],
             [Lit ''''],
             [Lit ''Re-authorise at:''],
             [Lit ''  '', Val (jget data ''reauthorizeUrl'')]]))
      else if truthy (jget data ''elevateUrl'') then
        (None,
         [[Val (jor (jget data ''error'') (Some (JStr ''Access not authorised.'')))],
          [Lit ''''],
          [Lit ''To grant access, visit:''],
          [Lit ''  '', Val (jget data ''elevateUrl'')]])
      else
        (None,
         [[Val (jor (jor (jget data ''message'') (jget data ''error''))
                  (Some (JStr ''Authentication failed'')))]]))"

definition office_isAutoRequestError :: "json \<Rightarrow> bool" where
  "office_isAutoRequestError data =
     (if \<not> truthy (jgetq (Some data) ''error'') then False
      else includes_grant_code (jget data ''error''))"

section \<open>The session store\<close>

text \<open>
  Strings are lists of characters; the session identifiers and file contents handled
  here are ASCII. \<^verbatim>\<open>String.prototype.trim\<close> removes white space and line terminators
  from both ends.
\<close>

definition is_space :: "char \<Rightarrow> bool" where
  "is_space c = (c \<in> set [CHR 0x09, CHR 0x0A, CHR 0x0B, CHR 0x0C, CHR 0x0D, CHR '' ''])"

definition trim :: "string \<Rightarrow> string" where
  "trim s = rev (dropWhile is_space (rev (dropWhile is_space s)))"

text \<open>
  The file system maps a path to what is found there: a regular file with its content,
  or something that \<^verbatim>\<open>existsSync\<close> reports but that cannot be read or written as a file
  (a directory, a file without permission).
\<close>

datatype node = File string | Unreadable

type_synonym filesystem = "string \<Rightarrow> node option"

subsection \<open>Requests, responses and the environment of a run\<close>

datatype reqbody = NoBody | JsonBody json | TextBody string

text \<open>
  The argument of a \<^verbatim>\<open>fetch\<close> call. \<open>rq_url\<close> is the text of the URL; \<open>rq_method\<close> is
  \<open>''GET''\<close> when the call names no method; \<open>rq_body\<close> is \<open>JsonBody v\<close> for
  \<^verbatim>\<open>JSON.stringify(v)\<close>; \<open>rq_redirect\<close> is \<open>''follow''\<close> when the call does not set it.
\<close>

record request =
  rq_url :: msg
  rq_method :: string
  rq_headers :: "(string \<times> string) list"
  rq_body :: reqbody
  rq_redirect :: string

record response =
  rs_status :: nat
  rs_statusText :: string
  rs_text :: string
  rs_location :: "string option"

text \<open>\<^verbatim>\<open>response.ok\<close>\<close>

definition ok :: "response \<Rightarrow> bool" where
  "ok r = (200 \<le> rs_status r \<and> rs_status r \<le> 299)"

text \<open>
  What a run is given and does not change: the constants computed from the process
  environment at start-up, the runtime's \<^verbatim>\<open>JSON.parse\<close> (\<open>None\<close> when it throws) and
  \<^verbatim>\<open>new Date(v).getTime()\<close> (\<open>None\<close> for \<^verbatim>\<open>NaN\<close>), and the network: the answer to the
  \<open>i\<close>-th \<^verbatim>\<open>fetch\<close> of the run together with the milliseconds it takes, or \<open>None\<close> when
  the \<^verbatim>\<open>fetch\<close> promise rejects. \<open>currentService\<close> is the service that the command
  dispatcher of \<^verbatim>\<open>office-cli.js\<close> has selected.
\<close>

record env =
  AUTH_SERVICE_URL :: string
  SHARED_AGENT_SESSION_FILE :: string
  LEGACY_AGENT_SESSION_FILES :: "string list"
  AUTO_REQUEST_ENABLED :: bool
  NOTION_VERSION :: string
  currentService :: string
  JSON_parse :: "string \<Rightarrow> json option"
  Date_getTime :: "json \<Rightarrow> int option"
  network :: "nat \<Rightarrow> request \<Rightarrow> (response \<times> nat) option"

datatype event = Fetch request | Sleep nat | Stderr msg | Stdout msg

text \<open>
  The state of a run: the files, the wall clock in milliseconds, the number of \<^verbatim>\<open>fetch\<close>
  calls made so far, and everything the run did that can be observed, in order.
\<close>

record world =
  files :: filesystem
  clock :: int
  fetches :: nat
  trace :: "event list"

text \<open>How a call ends: it returns, it throws, or \<^verbatim>\<open>process.exit\<close> ends the process.\<close>

datatype 'a outcome = Return 'a | Throw exn | Exit nat

definition AUTO_REQUEST_POLL_MS :: nat where
  "AUTO_REQUEST_POLL_MS = 2000"

definition fetch :: "env \<Rightarrow> request \<Rightarrow> world \<Rightarrow> response option \<times> world" where
  "fetch e rq w =
     (case network e (fetches w) rq of
        None \<Rightarrow> (None, w\<lparr>fetches := fetches w + 1, trace := trace w @ [Fetch rq]\<rparr>)
      | Some (r, ms) \<Rightarrow>
          (Some r, w\<lparr>clock := clock w + int ms, fetches := fetches w + 1,
                     trace := trace w @ [Fetch rq]\<rparr>))"

definition sleep :: "nat \<Rightarrow> world \<Rightarrow> world" where
  "sleep ms w = w\<lparr>clock := clock w + int ms, trace := trace w @ [Sleep ms]\<rparr>"

definition console_error :: "msg list \<Rightarrow> world \<Rightarrow> world" where
  "console_error ls w = w\<lparr>trace := trace w @ map Stderr ls\<rparr>"

definition readErrorBody :: "env \<Rightarrow> response \<Rightarrow> json \<times> string" where
  "readErrorBody e r =
     (if rs_text r = [] then (JNull, [])
      else case JSON_parse e (rs_text r) of
             Some d \<Rightarrow> (d, rs_text r)
           | None \<Rightarrow> (JNull, rs_text r))"

subsection \<open>\<^verbatim>\<open>getAgentSession\<close> and \<^verbatim>\<open>saveAgentSession\<close>\<close>

text \<open>
  The loop of \<^verbatim>\<open>getAgentSession\<close> over the candidate files. A read that throws leaves
  the whole function through the outer \<^verbatim>\<open>catch\<close>; a throw inside the inner \<^verbatim>\<open>try\<close>
  (\<^verbatim>\<open>JSON.parse\<close> failing, a field read on \<^verbatim>\<open>null\<close>, \<^verbatim>\<open>trim\<close> missing on a value that is
  not a string) returns the raw text.
\<close>

fun getAgentSession_loop :: "(string \<Rightarrow> json option) \<Rightarrow> filesystem \<Rightarrow> string list \<Rightarrow> string option" where
  "getAgentSession_loop parse fs [] = None"
| "getAgentSession_loop parse fs (sessionFile # rest) =
     (case fs sessionFile of
        None \<Rightarrow> getAgentSession_loop parse fs rest
      | Some Unreadable \<Rightarrow> None
      | Some (File content) \<Rightarrow>
          (let sessionRaw = trim content in
           if sessionRaw = [] then getAgentSession_loop parse fs rest
           else case parse sessionRaw of
                  None \<Rightarrow> Some sessionRaw
                | Some parsed \<Rightarrow>
                    if parsed = JNull then Some sessionRaw
                    else
                    (case jor (jor (jget parsed ''agentSessionId'') (jget parsed ''agentSession''))
                              (jget parsed ''session'') of
                       None \<Rightarrow> getAgentSession_loop parse fs rest
                     | Some JNull \<Rightarrow> getAgentSession_loop parse fs rest
                     | Some (JStr normalized) \<Rightarrow>
                         (if trim normalized \<noteq> [] then Some (trim normalized)
                          else getAgentSession_loop parse fs rest)
                     | Some other \<Rightarrow> Some sessionRaw)))"

definition getAgentSession :: "env \<Rightarrow> filesystem \<Rightarrow> string option" where
  "getAgentSession e fs =
     getAgentSession_loop (JSON_parse e) fs
       (SHARED_AGENT_SESSION_FILE e # LEGACY_AGENT_SESSION_FILES e)"



section \<open>The grant request and poll protocol\<close>

text \<open>
  \<^verbatim>\<open>requestGrant\<close>, \<^verbatim>\<open>waitForGrantApproval\<close> and \<^verbatim>\<open>ensureGrant\<close> are the same code in both
  clients up to the texts they print, the body of the grant request and the classifier
  they call; the client is a parameter.
\<close>

datatype client = NotionQuery | OfficeCli

definition no_session_message :: "client \<Rightarrow> msg" where
  "no_session_message c =
     (case c of
        NotionQuery \<Rightarrow> [Lit ''No agent session. Run 'node notion-query.js login' first.'']
      | OfficeCli \<Rightarrow> [Lit ''Not registered. Run './office-cli.js login' first.''])"

definition SCOPES :: "string \<Rightarrow> json option" where
  "SCOPES service =
     map_of [(''drive'', JArr [JStr ''Files.Read'', JStr ''Files.ReadWrite.All'']),
             (''mail'', JArr [JStr ''Mail.Read'', JStr ''Mail.Send'', JStr ''People.Read'']),
             (''cal'', JArr [JStr ''Calendars.Read''])] service"

definition GRANT_DURATION :: "string \<Rightarrow> json option" where
  "GRANT_DURATION service =
     map_of [(''drive'', JStr ''30m''), (''mail'', JStr ''1h''), (''cal'', JStr ''1h'')] service"

text \<open>The object that \<^verbatim>\<open>requestGrant\<close> sends; \<^verbatim>\<open>JSON.stringify\<close> drops undefined fields.\<close>

definition grant_request_body :: "client \<Rightarrow> env \<Rightarrow> json" where
  "grant_request_body c e =
     (case c of
        NotionQuery \<Rightarrow>
          JObj [(''service'', JStr ''notion''),
                (''scopes'', JArr [JStr ''read'', JStr ''write'']),
                (''duration'', JStr ''1h'')]
      | OfficeCli \<Rightarrow>
          JObj ([(''service'', JStr ''msgraph'')]
                @ (case SCOPES (currentService e) of None \<Rightarrow> [] | Some v \<Rightarrow> [(''scopes'', v)])
                @ (case GRANT_DURATION (currentService e) of None \<Rightarrow> [] | Some v \<Rightarrow> [(''duration'', v)])))"

definition grant_request :: "client \<Rightarrow> env \<Rightarrow> string \<Rightarrow> request" where
  "grant_request c e agentSession =
     \<lparr>rq_url = [Lit (AUTH_SERVICE_URL e @ ''/api/auth-request'')],
      rq_method = ''POST'',
      rq_headers = [(''Content-Type'', ''application/json''), (''X-Agent-Session'', agentSession)],
      rq_body = JsonBody (grant_request_body c e),
      rq_redirect = ''follow''\<rparr>"

text \<open>The classifier as the grant protocol calls it: what it prints and whether it throws.\<close>

definition describe_for :: "client \<Rightarrow> json \<Rightarrow> string \<Rightarrow> exn option \<times> msg list" where
  "describe_for c data service =
     (case c of
        NotionQuery \<Rightarrow> (None, notion_describeAuthError data)
      | OfficeCli \<Rightarrow> office_describeAuthError data service)"

definition requestGrant :: "client \<Rightarrow> env \<Rightarrow> world \<Rightarrow> json outcome \<times> world" where
  "requestGrant c e w =
     (case getAgentSession e (files w) of
        None \<Rightarrow> (Exit 1, console_error [no_session_message c] w)
      | Some agentSession \<Rightarrow>
          (case fetch e (grant_request c e agentSession) w of
             (None, w1) \<Rightarrow> (Throw FetchFailed, w1)
           | (Some response, w1) \<Rightarrow>
               if \<not> ok response then
                 (case readErrorBody e response of
                    (data, txt) \<Rightarrow>
                      if truthy (jgetq (Some data) ''error'') \<or> truthy (jgetq (Some data) ''message'')
                      then (Throw (Error [Val (jor (jgetq (Some data) ''message'')
                                                  (jgetq (Some data) ''error''))]), w1)
                      else (Throw (Error [Lit ''Failed to create auth request ('',
                                          Num (rs_status response), Lit ''): '',
                                          Lit (if txt \<noteq> [] then txt else rs_statusText response)]),
                            w1))
               else (case JSON_parse e (rs_text response) of
                       None \<Rightarrow> (Throw SyntaxError, w1)
                     | Some v \<Rightarrow> (Return v, w1))))"

text \<open>The request that polls a grant; \<open>pollUrl\<close> is whatever the broker's answer carried.\<close>

definition poll_request :: "jsval \<Rightarrow> string \<Rightarrow> request" where
  "poll_request pollUrl agentSession =
     \<lparr>rq_url = [Val pollUrl],
      rq_method = ''GET'',
      rq_headers = [(''X-Agent-Session'', agentSession)],
      rq_body = NoBody,
      rq_redirect = ''follow''\<rparr>"

text \<open>
  \<^verbatim>\<open>const deadline = expiresAt ? new Date(expiresAt).getTime() : Date.now() + 5 * 60 * 1000\<close>;
  \<open>None\<close> is \<^verbatim>\<open>NaN\<close>.
\<close>

definition grant_deadline :: "env \<Rightarrow> jsval \<Rightarrow> world \<Rightarrow> int option" where
  "grant_deadline e expiresAt w =
     (if truthy expiresAt then Date_getTime e (the expiresAt)
      else Some (clock w + 5 * 60 * 1000))"

text \<open>\<^verbatim>\<open>Date.now() < deadline\<close>, false when the deadline is \<^verbatim>\<open>NaN\<close>.\<close>

definition before_deadline :: "world \<Rightarrow> int option \<Rightarrow> bool" where
  "before_deadline w deadline = (case deadline of None \<Rightarrow> False | Some d \<Rightarrow> clock w < d)"

text \<open>The \<^verbatim>\<open>while\<close> loop of \<^verbatim>\<open>waitForGrantApproval\<close> with its local \<open>lastStatus\<close>.\<close>

function poll_loop ::
  "client \<Rightarrow> env \<Rightarrow> jsval \<Rightarrow> string \<Rightarrow> int option \<Rightarrow> jsval \<Rightarrow> world \<Rightarrow> unit outcome \<times> world" where
  "poll_loop c e pollUrl agentSession deadline lastStatus w =
     (if before_deadline w deadline then
        (case fetch e (poll_request pollUrl agentSession) w of
           (None, w1) \<Rightarrow> (Throw FetchFailed, w1)
         | (Some response, w1) \<Rightarrow>
             if \<not> ok response then
               (case readErrorBody e response of
                  (data, txt) \<Rightarrow>
                    if truthy (Some data) then
                      (case describe_for c data ''msgraph'' of
                         (None, printed) \<Rightarrow> (Exit 1, console_error printed w1)
                       | (Some x, printed) \<Rightarrow> (Throw x, console_error printed w1))
                    else (Throw (Error [Lit ''Auth request poll failed ('',
                                        Num (rs_status response), Lit ''): '',
                                        Lit (if txt \<noteq> [] then txt else rs_statusText response)]),
                          w1))
             else
               (case JSON_parse e (rs_text response) of
                  None \<Rightarrow> (Throw SyntaxError, w1)
                | Some status \<Rightarrow>
                    if status = JNull then (Throw TypeError, w1)
                    else
                    (let st = jget status ''status'';
                         w2 = (if \<not> strict_eq st lastStatus \<and> st = Some (JStr ''oauth_pending'')
                               then console_error
                                      [[Lit ''OAuth connection required. Complete it in your browser...'']] w1
                               else w1)
                     in if st = Some (JStr ''approved'') then (Return (), w2)
                        else if st = Some (JStr ''denied'') then
                          (Throw (Error [Val (jor (jget status ''message'')
                                                  (Some (JStr ''Authorization denied.'')))]), w2)
                        else if st = Some (JStr ''expired'') then
                          (Throw (Error [Val (jor (jget status ''message'')
                                                  (Some (JStr ''Authorization request expired.'')))]), w2)
                        else poll_loop c e pollUrl agentSession deadline st
                               (sleep AUTO_REQUEST_POLL_MS w2))))
      else (Throw (Error [Lit ''Timed out waiting for authorization approval.'']), w))"
  by pat_completeness auto
termination
  by (relation "measure (\<lambda>(c, e, pollUrl, agentSession, deadline, lastStatus, w).
                   case deadline of None \<Rightarrow> 0 | Some d \<Rightarrow> nat (d - clock w))")
     (auto simp: before_deadline_def fetch_def sleep_def console_error_def
        AUTO_REQUEST_POLL_MS_def split: option.splits)

declare poll_loop.simps [simp del]

definition waitForGrantApproval ::
  "client \<Rightarrow> env \<Rightarrow> jsval \<Rightarrow> jsval \<Rightarrow> world \<Rightarrow> unit outcome \<times> world" where
  "waitForGrantApproval c e pollUrl expiresAt w =
     (case getAgentSession e (files w) of
        None \<Rightarrow> (Exit 1, console_error [no_session_message c] w)
      | Some agentSession \<Rightarrow>
          poll_loop c e pollUrl agentSession (grant_deadline e expiresAt w) (Some JNull) w)"

definition service_name :: "client \<Rightarrow> env \<Rightarrow> string" where
  "service_name c e = (case c of NotionQuery \<Rightarrow> ''notion'' | OfficeCli \<Rightarrow> currentService e)"

definition ensureGrant :: "client \<Rightarrow> env \<Rightarrow> world \<Rightarrow> unit outcome \<times> world" where
  "ensureGrant c e w =
     (if \<not> AUTO_REQUEST_ENABLED e then (Return (), w)
      else case requestGrant c e w of
             (Throw x, w1) \<Rightarrow> (Throw x, w1)
           | (Exit n, w1) \<Rightarrow> (Exit n, w1)
           | (Return request, w1) \<Rightarrow>
               if request = JNull then (Throw TypeError, w1)
               else if truthy (jget request ''autoApproved'') then
                 (Return (), console_error [[Lit ''Access granted automatically (within policy).'']] w1)
               else
                 (case waitForGrantApproval c e (jget request ''pollUrl'') (jget request ''expiresAt'')
                         (console_error
                            [[Lit ''Authorization required for '', Lit (service_name c e), Lit '' access.''],
                             [Lit ''Approve at: '', Val (jget request ''approveUrl'')],
                             [Lit ''Waiting for approval...'']] w1) of
                    (Return u, w2) \<Rightarrow>
                      (Return (), console_error [[Lit ''Authorization granted. Retrying request...'']] w2)
                  | (Throw x, w2) \<Rightarrow> (Throw x, w2)
                  | (Exit n, w2) \<Rightarrow> (Exit n, w2)))"

section \<open>The resilient request pipeline\<close>

text \<open>\<^verbatim>\<open>response.status === 401 || response.status === 403 || response.status === 429\<close>\<close>

definition auth_status :: "response \<Rightarrow> bool" where
  "auth_status r = (rs_status r = 401 \<or> rs_status r = 403 \<or> rs_status r = 429)"

subsection \<open>\<^verbatim>\<open>notionApi\<close> of \<^verbatim>\<open>notion-query.js\<close>\<close>

text \<open>
  The request that \<^verbatim>\<open>notionApi\<close> builds: \<open>body\<close> is \<open>None\<close> for \<^verbatim>\<open>undefined\<close>, and only a
  defined body adds the content type.
\<close>

definition notion_request :: "env \<Rightarrow> string \<Rightarrow> string \<Rightarrow> jsval \<Rightarrow> string \<Rightarrow> request" where
  "notion_request e method endpoint body agentSession =
     \<lparr>rq_url = [Lit (AUTH_SERVICE_URL e @ ''/api/proxy/notion'' @ endpoint)],
      rq_method = method,
      rq_headers =
        [(''X-Agent-Session'', agentSession), (''Notion-Version'', NOTION_VERSION e)]
        @ (case body of None \<Rightarrow> [] | Some b \<Rightarrow> [(''Content-Type'', ''application/json'')]),
      rq_body = (case body of None \<Rightarrow> NoBody | Some b \<Rightarrow> JsonBody b),
      rq_redirect = ''follow''\<rparr>"

text \<open>The part of \<^verbatim>\<open>notionApi\<close> after the 401/403/429 branch.\<close>

definition notionApi_result :: "env \<Rightarrow> response \<Rightarrow> world \<Rightarrow> json outcome \<times> world" where
  "notionApi_result e response w =
     (case readErrorBody e response of
        (data, txt) \<Rightarrow>
          if \<not> ok response then
            (if truthy (Some data)
                \<and> (jget (normalizeAuthError data) ''error'' = Some (JStr ''no_agent_session'')
                   \<or> jget (normalizeAuthError data) ''error'' = Some (JStr ''no_oauth_token'')
                   \<or> truthy (jget (normalizeAuthError data) ''reauthorizeUrl'')
                   \<or> truthy (jget (normalizeAuthError data) ''elevateUrl''))
             then (Exit 1, console_error (notion_describeAuthError data) w)
             else if truthy (jgetq (Some data) ''error'') \<or> truthy (jgetq (Some data) ''message'')
             then (Throw (Error [Val (jor (jgetq (Some data) ''message'')
                                         (jgetq (Some data) ''error''))]), w)
             else (Throw (Error (if txt \<noteq> [] then [Lit txt]
                                 else [Lit ''Error: '', Num (rs_status response), Lit '' '',
                                       Lit (rs_statusText response)])), w))
          else if jgetq (Some data) ''object'' = Some (JStr ''error'') then
            (Throw (Error [Lit ''Error: '',
                           Val (jor (jgetq (Some data) ''message'')
                                    (Some (JStr ''Notion proxy error'')))]), w)
          else (Return (the (jor (Some data) (Some (JObj [])))), w))"

function notionApi ::
  "env \<Rightarrow> string \<Rightarrow> string \<Rightarrow> jsval \<Rightarrow> nat \<Rightarrow> world \<Rightarrow> json outcome \<times> world" where
  "notionApi e method endpoint body attempt w =
     (case getAgentSession e (files w) of
        None \<Rightarrow>
          (Exit 1, console_error [[Lit ''No agent session. Run 'node notion-query.js login' first.'']] w)
      | Some agentSession \<Rightarrow>
          (case fetch e (notion_request e method endpoint body agentSession) w of
             (None, w1) \<Rightarrow> (Throw FetchFailed, w1)
           | (Some response, w1) \<Rightarrow>
               if auth_status response then
                 (if attempt = 0 \<and> AUTO_REQUEST_ENABLED e
                     \<and> notion_isAutoRequestError (fst (readErrorBody e response))
                  then (case ensureGrant NotionQuery e w1 of
                          (Return u, w2) \<Rightarrow> notionApi e method endpoint body (attempt + 1) w2
                        | (Throw x, w2) \<Rightarrow> (Throw x, w2)
                        | (Exit n, w2) \<Rightarrow> (Exit n, w2))
                  else if truthy (Some (fst (readErrorBody e response))) then
                    (Exit 1, console_error (notion_describeAuthError (fst (readErrorBody e response))) w1)
                  else
                    (Throw (Error (if snd (readErrorBody e response) \<noteq> []
                                   then [Lit (snd (readErrorBody e response))]
                                   else [Lit ''Authentication failed ('', Num (rs_status response),
                                         Lit '')''])), w1))
               else notionApi_result e response w1))"
  by pat_completeness auto
termination
  by (relation "measure (\<lambda>(e, method, endpoint, body, attempt, w). if attempt = 0 then 1 else 0)")
     auto

declare notionApi.simps [simp del]

subsection \<open>\<^verbatim>\<open>apiRequest\<close> and \<^verbatim>\<open>fetchGraphContent\<close> of \<^verbatim>\<open>office-cli.js\<close>\<close>

text \<open>The \<^verbatim>\<open>options\<close> argument of \<^verbatim>\<open>apiRequest\<close>, as far as its callers fill it.\<close>

record options =
  o_method :: "string option"
  o_headers :: "(string \<times> string) list option"
  o_body :: reqbody

text \<open>
  The request that \<^verbatim>\<open>apiRequest\<close> builds: the session and content-type headers are
  always there, and the caller's headers are spread over them.
\<close>

definition office_request :: "env \<Rightarrow> string \<Rightarrow> options \<Rightarrow> string \<Rightarrow> request" where
  "office_request e endpoint opts agentSession =
     \<lparr>rq_url = [Lit (AUTH_SERVICE_URL e @ ''/proxy/msgraph'' @ endpoint)],
      rq_method = (case o_method opts of None \<Rightarrow> ''GET'' | Some m \<Rightarrow> m),
      rq_headers =
        spread [(''X-Agent-Session'', agentSession), (''Content-Type'', ''application/json'')]
               (case o_headers opts of None \<Rightarrow> [] | Some hs \<Rightarrow> hs),
      rq_body = o_body opts,
      rq_redirect = ''manual''\<rparr>"

text \<open>What both functions do with a 401/403/429 answer that is not retried.\<close>

definition office_auth_failure :: "env \<Rightarrow> response \<Rightarrow> world \<Rightarrow> 'a outcome \<times> world" where
  "office_auth_failure e response w =
     (case readErrorBody e response of
        (data, txt) \<Rightarrow>
          if truthy (Some data) then
            (case office_describeAuthError data (currentService e) of
               (None, printed) \<Rightarrow> (Exit 1, console_error printed w)
             | (Some x, printed) \<Rightarrow> (Throw x, console_error printed w))
          else
            (Throw (Error (if txt \<noteq> [] then [Lit txt]
                           else [Lit ''Authentication failed ('', Num (rs_status response),
                                 Lit '')''])), w))"

function apiRequest ::
  "env \<Rightarrow> string \<Rightarrow> options \<Rightarrow> nat \<Rightarrow> world \<Rightarrow> json outcome \<times> world" where
  "apiRequest e endpoint opts attempt w =
     (case getAgentSession e (files w) of
        None \<Rightarrow>
          (Exit 1, console_error [[Lit ''Not registered. Run 'login' to create an agent session.'']] w)
      | Some agentSession \<Rightarrow>
          (case fetch e (office_request e endpoint opts agentSession) w of
             (None, w1) \<Rightarrow> (Throw FetchFailed, w1)
           | (Some response, w1) \<Rightarrow>
               if auth_status response then
                 (if attempt = 0 \<and> AUTO_REQUEST_ENABLED e
                     \<and> office_isAutoRequestError (fst (readErrorBody e response))
                  then (case ensureGrant OfficeCli e w1 of
                          (Return u, w2) \<Rightarrow> apiRequest e endpoint opts (attempt + 1) w2
                        | (Throw x, w2) \<Rightarrow> (Throw x, w2)
                        | (Exit n, w2) \<Rightarrow> (Exit n, w2))
                  else office_auth_failure e response w1)
               else if \<not> ok response then
                 (case readErrorBody e response of
                    (data, txt) \<Rightarrow>
                      if truthy (jgetq (Some data) ''error'') \<or> truthy (jgetq (Some data) ''message'')
                      then (Throw (Error [Val (jor (jgetq (Some data) ''message'')
                                                  (jgetq (Some data) ''error''))]), w1)
                      else (Throw (Error (if txt \<noteq> [] then [Lit txt]
                                          else [Lit ''API error ('', Num (rs_status response),
                                                Lit '')''])), w1))
               else (case JSON_parse e (rs_text response) of
                       None \<Rightarrow> (Throw SyntaxError, w1)
                     | Some v \<Rightarrow> (Return v, w1))))"
  by pat_completeness auto
termination
  by (relation "measure (\<lambda>(e, endpoint, opts, attempt, w). if attempt = 0 then 1 else 0)")
     auto

declare apiRequest.simps [simp del]

definition content_request :: "env \<Rightarrow> string \<Rightarrow> string \<Rightarrow> request" where
  "content_request e endpoint agentSession =
     \<lparr>rq_url = [Lit (AUTH_SERVICE_URL e @ ''/proxy/msgraph'' @ endpoint)],
      rq_method = ''GET'',
      rq_headers = [(''X-Agent-Session'', agentSession)],
      rq_body = NoBody,
      rq_redirect = ''manual''\<rparr>"

function fetchGraphContent ::
  "env \<Rightarrow> string \<Rightarrow> nat \<Rightarrow> world \<Rightarrow> response outcome \<times> world" where
  "fetchGraphContent e endpoint attempt w =
     (case getAgentSession e (files w) of
        None \<Rightarrow>
          (Exit 1, console_error [[Lit ''Not registered. Run 'login' to create an agent session.'']] w)
      | Some agentSession \<Rightarrow>
          (case fetch e (content_request e endpoint agentSession) w of
             (None, w1) \<Rightarrow> (Throw FetchFailed, w1)
           | (Some response, w1) \<Rightarrow>
               if auth_status response then
                 (if attempt = 0 \<and> AUTO_REQUEST_ENABLED e
                     \<and> office_isAutoRequestError (fst (readErrorBody e response))
                  then (case ensureGrant OfficeCli e w1 of
                          (Return u, w2) \<Rightarrow> fetchGraphContent e endpoint (attempt + 1) w2
                        | (Throw x, w2) \<Rightarrow> (Throw x, w2)
                        | (Exit n, w2) \<Rightarrow> (Exit n, w2))
                  else office_auth_failure e response w1)
               else (Return response, w1)))"
  by pat_completeness auto
termination
  by (relation "measure (\<lambda>(e, endpoint, attempt, w). if attempt = 0 then 1 else 0)") auto

declare fetchGraphContent.simps [simp del]

subsection \<open>Content downloads\<close>

text \<open>\<^verbatim>\<open>fetch(downloadUrl)\<close>: no method, no headers, no body.\<close>

definition download_request :: "string \<Rightarrow> request" where
  "download_request downloadUrl =
     \<lparr>rq_url = [Lit downloadUrl],
      rq_method = ''GET'',
      rq_headers = [],
      rq_body = NoBody,
      rq_redirect = ''follow''\<rparr>"

text \<open>
  The block that \<^verbatim>\<open>driveDownload\<close> and \<^verbatim>\<open>driveContent\<close> share word for word: the content
  of the item is fetched through \<^verbatim>\<open>fetchGraphContent\<close>, and a 301 or 302 answer is
  replaced by the answer of a second \<^verbatim>\<open>fetch\<close> of its \<^verbatim>\<open>location\<close> header.
\<close>

definition fetchItemContent :: "env \<Rightarrow> string \<Rightarrow> world \<Rightarrow> response outcome \<times> world" where
  "fetchItemContent e itemId w =
     (case fetchGraphContent e (''/me/drive/items/'' @ itemId @ ''/content'') 0 w of
        (Throw x, w1) \<Rightarrow> (Throw x, w1)
      | (Exit n, w1) \<Rightarrow> (Exit n, w1)
      | (Return response, w1) \<Rightarrow>
          if rs_status response = 302 \<or> rs_status response = 301 then
            (case rs_location response of
               None \<Rightarrow> (Throw (Error [Lit ''Download redirect missing location'']), w1)
             | Some downloadUrl \<Rightarrow>
                 if downloadUrl = [] then
                   (Throw (Error [Lit ''Download redirect missing location'']), w1)
                 else
                   (case fetch e (download_request downloadUrl) w1 of
                      (None, w2) \<Rightarrow> (Throw FetchFailed, w2)
                    | (Some r, w2) \<Rightarrow> (Return r, w2)))
          else (Return response, w1))"

section \<open>Auxiliary notions\<close>

definition digit_chars :: "char set" where
  "digit_chars = set ''0123456789''"

text \<open>A named key is neither an array index nor \<^verbatim>\<open>length\<close>.\<close>

definition named :: "string \<Rightarrow> bool" where
  "named k = (\<not> set k \<subseteq> digit_chars \<and> k \<noteq> ''length'')"

subsection \<open>One iteration of the poll loop\<close>

text \<open>
  The body of the \<^verbatim>\<open>while\<close> loop of \<^verbatim>\<open>waitForGrantApproval\<close> on its own: the iteration
  either ends the call, or it goes on to the next test of the deadline with a new
  \<open>lastStatus\<close>.
\<close>

datatype iteration = Done "unit outcome \<times> world" | Continue jsval world

definition poll_step :: "client \<Rightarrow> env \<Rightarrow> jsval \<Rightarrow> string \<Rightarrow> jsval \<Rightarrow> world \<Rightarrow> iteration" where
  "poll_step c e pollUrl agentSession lastStatus w =
     (case fetch e (poll_request pollUrl agentSession) w of
        (None, w1) \<Rightarrow> Done (Throw FetchFailed, w1)
      | (Some response, w1) \<Rightarrow>
          if \<not> ok response then
            (case readErrorBody e response of
               (data, txt) \<Rightarrow>
                 if truthy (Some data) then
                   (case describe_for c data ''msgraph'' of
                      (None, printed) \<Rightarrow> Done (Exit 1, console_error printed w1)
                    | (Some x, printed) \<Rightarrow> Done (Throw x, console_error printed w1))
                 else Done (Throw (Error [Lit ''Auth request poll failed ('',
                                          Num (rs_status response), Lit ''): '',
                                          Lit (if txt \<noteq> [] then txt else rs_statusText response)]),
                            w1))
          else
            (case JSON_parse e (rs_text response) of
               None \<Rightarrow> Done (Throw SyntaxError, w1)
             | Some status \<Rightarrow>
                 if status = JNull then Done (Throw TypeError, w1)
                 else
                 (let st = jget status ''status'';
                      w2 = (if \<not> strict_eq st lastStatus \<and> st = Some (JStr ''oauth_pending'')
                            then console_error
                                   [[Lit ''OAuth connection required. Complete it in your browser...'']] w1
                            else w1)
                  in if st = Some (JStr ''approved'') then Done (Return (), w2)
                     else if st = Some (JStr ''denied'') then
                       Done (Throw (Error [Val (jor (jget status ''message'')
                                                    (Some (JStr ''Authorization denied.'')))]), w2)
                     else if st = Some (JStr ''expired'') then
                       Done (Throw (Error [Val (jor (jget status ''message'')
                                                    (Some (JStr ''Authorization request expired.'')))]), w2)
                     else Continue st (sleep AUTO_REQUEST_POLL_MS w2))))"

text \<open>
  What the \<open>i\<close>-th \<^verbatim>\<open>fetch\<close> of the run tells the poll loop when it is the request \<open>rq\<close>:
  \<open>Some st\<close> when the answer is OK and its body is a JSON value other than \<^verbatim>\<open>null\<close> whose
  \<^verbatim>\<open>status\<close> field is \<open>st\<close>, and \<open>None\<close> for every other answer and for a failed \<^verbatim>\<open>fetch\<close>.
\<close>

definition poll_status :: "env \<Rightarrow> nat \<Rightarrow> request \<Rightarrow> jsval option" where
  "poll_status e i rq =
     (case network e i rq of
        None \<Rightarrow> None
      | Some (r, ms) \<Rightarrow>
          if ok r then
            (case JSON_parse e (rs_text r) of
               None \<Rightarrow> None
             | Some j \<Rightarrow> if j = JNull then None else Some (jget j ''status''))
          else None)"

text \<open>The milliseconds that the \<open>i\<close>-th \<^verbatim>\<open>fetch\<close> takes when it is the request \<open>rq\<close>.\<close>

definition latency :: "env \<Rightarrow> nat \<Rightarrow> request \<Rightarrow> int" where
  "latency e i rq = (case network e i rq of None \<Rightarrow> 0 | Some (r, ms) \<Rightarrow> int ms)"

text \<open>
  The clock at the \<open>k\<close>-th test of the loop condition (counting from 0), for a loop that
  starts at time \<open>t\<close> with the \<open>i\<close>-th \<^verbatim>\<open>fetch\<close> of the run and polls and sleeps in every
  iteration before.
\<close>

fun check_time :: "env \<Rightarrow> request \<Rightarrow> int \<Rightarrow> nat \<Rightarrow> nat \<Rightarrow> int" where
  "check_time e rq t i 0 = t"
| "check_time e rq t i (Suc k) =
     check_time e rq (t + latency e i rq + int AUTO_REQUEST_POLL_MS) (Suc i) k"

text \<open>The network traffic and the sleeps of a trace, without what was printed.\<close>

fun is_io :: "event \<Rightarrow> bool" where
  "is_io (Fetch rq) = True"
| "is_io (Sleep ms) = True"
| "is_io (Stderr m) = False"
| "is_io (Stdout m) = False"

text \<open>
  The shape of the traffic of a poll loop: polls of \<open>rq\<close>, each but possibly the last
  followed by a sleep of the fixed interval.
\<close>

fun poll_pattern :: "request \<Rightarrow> event list \<Rightarrow> bool" where
  "poll_pattern rq [] = True"
| "poll_pattern rq [Fetch q] = (q = rq)"
| "poll_pattern rq (Fetch q # Sleep ms # rest) =
     (q = rq \<and> ms = AUTO_REQUEST_POLL_MS \<and> poll_pattern rq rest)"
| "poll_pattern rq evs = False"

subsection \<open>What a call adds to the trace\<close>

text \<open>
  \<open>added w w'\<close> is what the trace of \<open>w'\<close> has beyond the length of the trace of \<open>w\<close>, and
  \<open>extends w w'\<close> says that the trace of \<open>w'\<close> is the trace of \<open>w\<close> followed by it.
\<close>

definition added :: "world \<Rightarrow> world \<Rightarrow> event list" where
  "added w w' = drop (length (trace w)) (trace w')"

definition extends :: "world \<Rightarrow> world \<Rightarrow> bool" where
  "extends w w' = (trace w' = trace w @ added w w')"

text \<open>The world after a \<^verbatim>\<open>fetch\<close> of \<open>rq\<close>, whether it was answered or not.\<close>

definition fetched :: "env \<Rightarrow> request \<Rightarrow> world \<Rightarrow> world" where
  "fetched e rq w =
     w\<lparr>clock := clock w + latency e (fetches w) rq, fetches := fetches w + 1,
       trace := trace w @ [Fetch rq]\<rparr>"

text \<open>The milliseconds left until the deadline, which every iteration of the loop reduces.\<close>

definition loop_measure :: "int option \<Rightarrow> world \<Rightarrow> nat" where
  "loop_measure d w = (case d of None \<Rightarrow> 0 | Some t \<Rightarrow> nat (t - clock w))"

subsection \<open>The traffic of a pipeline call\<close>

text \<open>
  The two requests that \<^verbatim>\<open>ensureGrant\<close> makes (the POST of \<^verbatim>\<open>requestGrant\<close> and the GET
  of the poll loop) are told apart from the requests of the pipeline by their shape:
  they follow redirects and carry the session header, with or without a content type,
  and no other header.
\<close>

definition grant_flow_request :: "request \<Rightarrow> bool" where
  "grant_flow_request q =
     (rq_redirect q = ''follow''
      \<and> (map fst (rq_headers q) = [''Content-Type'', ''X-Agent-Session'']
         \<or> map fst (rq_headers q) = [''X-Agent-Session'']))"

text \<open>A piece of a trace in which every \<^verbatim>\<open>fetch\<close> is a request of the grant flow.\<close>

definition only_grant_traffic :: "event list \<Rightarrow> bool" where
  "only_grant_traffic evs = (\<forall>q. Fetch q \<in> set evs \<longrightarrow> grant_flow_request q)"

text \<open>
  A piece of a trace in which every \<^verbatim>\<open>fetch\<close> is either the request \<open>rq\<close> or a request of
  the grant flow.
\<close>

definition pipeline_traffic :: "request \<Rightarrow> event list \<Rightarrow> bool" where
  "pipeline_traffic rq evs = (\<forall>q. Fetch q \<in> set evs \<longrightarrow> q = rq \<or> grant_flow_request q)"

text \<open>
  A downstream that always answers the request \<open>rq\<close> with status 403 and a body that the
  client's \<^verbatim>\<open>isAutoRequestError\<close> accepts, whenever in the run the request is made.
\<close>

definition always_403 :: "env \<Rightarrow> request \<Rightarrow> (json \<Rightarrow> bool) \<Rightarrow> bool" where
  "always_403 e rq retryable =
     (\<forall>i. \<exists>r ms. network e i rq = Some (r, ms) \<and> rs_status r = 403
                   \<and> retryable (fst (readErrorBody e r)))"

text \<open>The number of times that the request \<open>rq\<close> was fetched between \<open>w\<close> and \<open>w'\<close>.\<close>

definition attempts :: "request \<Rightarrow> world \<Rightarrow> world \<Rightarrow> nat" where
  "attempts rq w w' = count_list (added w w') (Fetch rq)"

section \<open>Example runs\<close>

text \<open>
  The concrete environment of the example runs below. \<open>example_parse\<close> is \<^verbatim>\<open>JSON.parse\<close> on
  the texts that occur in the examples, and throws on every other text;
  \<open>example_getTime\<close> is \<^verbatim>\<open>new Date(v).getTime()\<close> on the values that occur.
\<close>

definition example_parse :: "string \<Rightarrow> json option" where
  \<open>example_parse =
     map_of
       [(''123'', JNum 123),
        (''{}'', JObj []),
        (''{"error":"no_grant"}'', JObj [(''error'', JStr ''no_grant'')]),
        (''{"autoApproved":true}'', JObj [(''autoApproved'', JBool True)]),
        (''{"pollUrl":"https://auth.freshhub.ai/api/auth-request/r1","approveUrl":"https://auth.freshhub.ai/approve/r1"}'',
         JObj [(''pollUrl'', JStr ''https://auth.freshhub.ai/api/auth-request/r1''),
               (''approveUrl'', JStr ''https://auth.freshhub.ai/approve/r1'')]),
        (''{"status":"pending"}'', JObj [(''status'', JStr ''pending'')]),
        (''{"status":"approved"}'', JObj [(''status'', JStr ''approved'')]),
        (''{"status":"denied"}'', JObj [(''status'', JStr ''denied'')])]\<close>

definition example_getTime :: "json \<Rightarrow> int option" where
  "example_getTime v =
     (case v of
        JNum n \<Rightarrow> Some n
      | JStr s \<Rightarrow> (if s = ''1970-01-01T00:00:05.000Z'' then Some 5000 else None)
      | _ \<Rightarrow> None)"

definition example_env :: "(nat \<Rightarrow> request \<Rightarrow> (response \<times> nat) option) \<Rightarrow> env" where
  "example_env net =
     \<lparr>AUTH_SERVICE_URL = ''https://auth.freshhub.ai'',
      SHARED_AGENT_SESSION_FILE = ''/home/u/.config/fresh-auth/agent-session'',
      LEGACY_AGENT_SESSION_FILES = [''/home/u/.config/office-cli/agent-session''],
      AUTO_REQUEST_ENABLED = True,
      NOTION_VERSION = ''2022-06-28'',
      currentService = ''drive'',
      JSON_parse = example_parse,
      Date_getTime = example_getTime,
      network = net\<rparr>"

text \<open>A machine without a session file, and one whose shared file holds a session.\<close>

definition fresh_world :: world where
  "fresh_world = \<lparr>files = (\<lambda>p. None), clock = 0, fetches = 0, trace = []\<rparr>"

definition logged_in_world :: world where
  "logged_in_world =
     \<lparr>files = [''/home/u/.config/fresh-auth/agent-session'' \<mapsto> File (''sess-abc'' @ [CHR 0x0A])],
      clock = 0, fetches = 0, trace = []\<rparr>"

text \<open>An answer with the given status and body, and no \<^verbatim>\<open>location\<close> header.\<close>

definition answer :: "nat \<Rightarrow> string \<Rightarrow> response" where
  "answer st txt = \<lparr>rs_status = st, rs_statusText = [], rs_text = txt, rs_location = None\<rparr>"

text \<open>A network that is down: every \<^verbatim>\<open>fetch\<close> rejects.\<close>

definition no_network :: "nat \<Rightarrow> request \<Rightarrow> (response \<times> nat) option" where
  "no_network i rq = None"

text \<open>
  A poll endpoint that answers \<^verbatim>\<open>pending\<close> to the first \<open>n\<close> requests of the run and
  \<^verbatim>\<open>approved\<close> from then on, and one that answers \<^verbatim>\<open>pending\<close> for ever; every answer
  takes 150 ms.
\<close>

definition polls :: "nat \<Rightarrow> nat \<Rightarrow> request \<Rightarrow> (response \<times> nat) option" where
  \<open>polls n i rq =
     Some (answer 200 (if i < n then ''{"status":"pending"}'' else ''{"status":"approved"}''), 150)\<close>

definition always_pending :: "nat \<Rightarrow> request \<Rightarrow> (response \<times> nat) option" where
  \<open>always_pending i rq = Some (answer 200 ''{"status":"pending"}'', 150)\<close>

definition example_pollUrl :: jsval where
  "example_pollUrl = Some (JStr ''https://auth.freshhub.ai/api/auth-request/r1'')"

text \<open>
  An auth service in front of a downstream that refuses every proxied request with
  \<^verbatim>\<open>403 {"error":"no_grant"}\<close>: it answers the POST of a grant request with \<open>grant_answer\<close>
  and the poll of the request with \<open>poll_answer\<close>; every answer takes 100 ms.
\<close>

definition broker :: "string \<Rightarrow> string \<Rightarrow> nat \<Rightarrow> request \<Rightarrow> (response \<times> nat) option" where
  \<open>broker grant_answer poll_answer i rq =
     (if rq_url rq = [Lit ''https://auth.freshhub.ai/api/auth-request'']
      then Some (answer 200 grant_answer, 100)
      else if rq_url rq = [Val example_pollUrl] then Some (answer 200 poll_answer, 100)
      else Some (answer 403 ''{"error":"no_grant"}'', 100))\<close>

text \<open>The request of \<^verbatim>\<open>notionApi('POST', '/v1/search', {})\<close> with the example session.\<close>

definition search_request :: request where
  "search_request =
     \<lparr>rq_url = [Lit ''https://auth.freshhub.ai/api/proxy/notion/v1/search''],
      rq_method = ''POST'',
      rq_headers = [(''X-Agent-Session'', ''sess-abc''), (''Notion-Version'', ''2022-06-28''),
                    (''Content-Type'', ''application/json'')],
      rq_body = JsonBody (JObj []),
      rq_redirect = ''follow''\<rparr>"

text \<open>A service that answers every request with \<^verbatim>\<open>200 {}\<close> after 80 ms.\<close>

definition ok_network :: "nat \<Rightarrow> request \<Rightarrow> (response \<times> nat) option" where
  "ok_network i rq = Some (answer 200 ''{}'', 80)"

text \<open>
  A service that answers the requests made with \<^verbatim>\<open>redirect: 'manual'\<close> by a redirect to a
  pre-signed URL, and every other request with the content of the file.
\<close>

definition redirecting :: "nat \<Rightarrow> request \<Rightarrow> (response \<times> nat) option" where
  "redirecting i rq =
     (if rq_redirect rq = ''manual''
      then Some (\<lparr>rs_status = 302, rs_statusText = ''Found'', rs_text = [],
                  rs_location = Some ''https://cdn.example/file?sig=abc''\<rparr>, 90)
      else Some (answer 200 ''hello'', 120))"

section \<open>Properties of the classifier\<close>

subsection \<open>Field reads\<close>

lemma digit_char_of: "(n::nat) < 10 \<Longrightarrow> ''0123456789'' ! n \<in> digit_chars"
  unfolding digit_chars_def by (rule nth_mem) simp

lemma show_nat_digits: "set (show_nat n) \<subseteq> digit_chars"
proof (induction n rule: show_nat.induct)
  case (1 n)
  show ?case
  proof (cases "n < 10")
    case True
    then show ?thesis by (subst show_nat.simps) (simp add: digit_char_of del: nth_Cons_numeral)
  next
    case False
    have "n mod 10 < 10" by simp
    then have "''0123456789'' ! (n mod 10) \<in> digit_chars" by (rule digit_char_of)
    with False 1 show ?thesis by (subst show_nat.simps) simp
  qed
qed

lemma index_keys_None:
  assumes "\<not> set k \<subseteq> digit_chars"
  shows "map_of (zip (map show_nat [0..<m]) ys) k = None"
proof -
  have "k \<notin> set (map show_nat [0..<m])"
    using assms show_nat_digits by auto
  then have "k \<notin> fst ` set (zip (map show_nat [0..<m]) ys)"
    by (metis (no_types, lifting) imageE prod.collapse set_zip_leftD)
  then show ?thesis by (simp add: map_of_eq_None_iff)
qed

text \<open>Only an object has named fields.\<close>

lemma jget_named:
  "named k \<Longrightarrow> jget v k = (case v of JObj kvs \<Rightarrow> map_of kvs k | _ \<Rightarrow> None)"
  by (cases v) (simp_all add: named_def index_keys_None)

lemma named_keys [simp]:
  "named ''error''" "named ''details''" "named ''message''" "named ''connectUrl''"
  "named ''reauthorizeUrl''" "named ''elevateUrl''" "named ''missingScopes''"
  by (simp_all add: named_def digit_chars_def)

text \<open>
  What \<^verbatim>\<open>normalizeAuthError\<close> makes of a named field: the field of the \<^verbatim>\<open>details\<close> object
  when that object has it, and the payload's own field otherwise.
\<close>

lemma normalizeAuthError_field:
  assumes "named k"
  shows "jget (normalizeAuthError data) k =
     (case jgetq (Some data) ''details'' of
        Some (JObj d) \<Rightarrow> (case map_of d k of Some v \<Rightarrow> Some v | None \<Rightarrow> jgetq (Some data) k)
      | _ \<Rightarrow> jgetq (Some data) k)"
proof -
  note jk = jget_named [OF assms] jget_named [OF named_keys(2)]
  have nk: "\<not> set k \<subseteq> digit_chars" using assms by (simp add: named_def)
  show ?thesis
  proof (cases data)
    case (JObj kvs)
    show ?thesis
    proof (cases "map_of kvs ''details''")
      case None
      with JObj show ?thesis
        by (simp add: normalizeAuthError_def jor_def spread_def jk AList.merge_conv')
    next
      case (Some dv)
      with JObj show ?thesis
        by (cases dv)
           (simp_all add: normalizeAuthError_def jor_def spread_def jk AList.merge_conv'
              index_keys_None nk map_add_def split: option.splits)
    qed
  qed (simp_all add: normalizeAuthError_def jor_def spread_def jk AList.merge_conv'
         index_keys_None nk)
qed

lemma includes_grant_code_iff:
  "includes_grant_code v \<longleftrightarrow>
     v = Some (JStr ''no_grant'') \<or> v = Some (JStr ''grant_expired'')
     \<or> v = Some (JStr ''single_use_exhausted'')"
  by (cases v rule: includes_grant_code.cases) (auto simp: grant_codes_def)

lemma includes_grant_code_truthy: "includes_grant_code v \<Longrightarrow> truthy v"
  by (auto simp: includes_grant_code_iff)

lemma includes_grant_code_jor:
  "includes_grant_code (jor v (Some (JStr []))) = includes_grant_code v"
  by (cases v rule: truthy.cases) (auto simp: jor_def includes_grant_code_iff)

lemma notion_isAutoRequestError_iff:
  "notion_isAutoRequestError data = includes_grant_code (jget (normalizeAuthError data) ''error'')"
proof -
  have n: "jgetq (Some (normalizeAuthError data)) ''error'' = jget (normalizeAuthError data) ''error''"
    by (simp add: normalizeAuthError_def Let_def)
  show ?thesis
    using includes_grant_code_truthy [of "jget (normalizeAuthError data) ''error''"]
    by (auto simp: notion_isAutoRequestError_def Let_def n)
qed

lemma office_isAutoRequestError_iff:
  "office_isAutoRequestError data = includes_grant_code (jgetq (Some data) ''error'')"
proof (cases "data = JNull")
  case True
  then show ?thesis by (simp add: office_isAutoRequestError_def)
next
  case False
  then have n: "jgetq (Some data) ''error'' = jget data ''error''"
    by (cases data) simp_all
  show ?thesis
    using includes_grant_code_truthy [of "jget data ''error''"]
    by (auto simp: office_isAutoRequestError_def n)
qed

subsection \<open>The retryable-error predicate\<close>

text \<open>
  Claim C2, as the code has it. \<^verbatim>\<open>isAutoRequestError\<close> is true exactly when the error code
  that the function reads is \<^verbatim>\<open>no_grant\<close>, \<^verbatim>\<open>grant_expired\<close> or \<^verbatim>\<open>single_use_exhausted\<close>,
  and false for every other code and for an absent code. In \<^verbatim>\<open>office-cli.js\<close> the code
  read is the payload's \<^verbatim>\<open>error\<close> field. In \<^verbatim>\<open>notion-query.js\<close> it is the \<^verbatim>\<open>error\<close> field
  of the payload's \<^verbatim>\<open>details\<close> object when that object has one, and the payload's own
  \<^verbatim>\<open>error\<close> field otherwise.
\<close>

theorem C2_isAutoRequestError:
  "(notion_isAutoRequestError data \<longleftrightarrow>
      (let e = (case jgetq (Some data) ''details'' of
                  Some (JObj d) \<Rightarrow> (case map_of d ''error'' of Some v \<Rightarrow> Some v
                                   | None \<Rightarrow> jgetq (Some data) ''error'')
                | _ \<Rightarrow> jgetq (Some data) ''error'')
       in e = Some (JStr ''no_grant'') \<or> e = Some (JStr ''grant_expired'')
          \<or> e = Some (JStr ''single_use_exhausted'')))
   \<and> (office_isAutoRequestError data \<longleftrightarrow>
        jgetq (Some data) ''error'' = Some (JStr ''no_grant'')
        \<or> jgetq (Some data) ''error'' = Some (JStr ''grant_expired'')
        \<or> jgetq (Some data) ''error'' = Some (JStr ''single_use_exhausted''))"
  unfolding notion_isAutoRequestError_iff office_isAutoRequestError_iff
    normalizeAuthError_field [OF named_keys(1)] includes_grant_code_iff Let_def
  by simp

text \<open>
  The statement at four payloads: a retryable code, a code that is not retryable, a
  payload without \<^verbatim>\<open>error\<close>, and \<^verbatim>\<open>null\<close>.
\<close>

theorem C2_isAutoRequestError_witness:
  "notion_isAutoRequestError (JObj [(''error'', JStr ''grant_expired'')])
   \<and> office_isAutoRequestError (JObj [(''error'', JStr ''single_use_exhausted'')])
   \<and> \<not> notion_isAutoRequestError (JObj [(''error'', JStr ''no_oauth_token'')])
   \<and> \<not> office_isAutoRequestError (JObj [(''message'', JStr ''Forbidden'')])
   \<and> \<not> notion_isAutoRequestError JNull
   \<and> \<not> office_isAutoRequestError JNull"
  using C2_isAutoRequestError [of "JObj [(''error'', JStr ''grant_expired'')]"]
    C2_isAutoRequestError [of "JObj [(''error'', JStr ''single_use_exhausted'')]"]
    C2_isAutoRequestError [of "JObj [(''error'', JStr ''no_oauth_token'')]"]
    C2_isAutoRequestError [of "JObj [(''message'', JStr ''Forbidden'')]"]
    C2_isAutoRequestError [of JNull]
  by simp

text \<open>
  Claim C2 as the specification words it fails for \<^verbatim>\<open>notion-query.js\<close>: the payload below
  has the \<^verbatim>\<open>error\<close> field \<^verbatim>\<open>no_grant\<close>, and the predicate is false, because the \<^verbatim>\<open>details\<close>
  object overrides the code.
\<close>

theorem C2_counterexample:
  "jgetq (Some (JObj [(''error'', JStr ''no_grant''),
                      (''details'', JObj [(''error'', JStr ''rate_limited'')])])) ''error''
     = Some (JStr ''no_grant'')
   \<and> \<not> notion_isAutoRequestError
         (JObj [(''error'', JStr ''no_grant''),
                (''details'', JObj [(''error'', JStr ''rate_limited'')])])"
  by (simp add: notion_isAutoRequestError_def normalizeAuthError_def jor_def spread_def
        grant_codes_def)

subsection \<open>Precedence of the classifier's rules\<close>

text \<open>
  Claim C3, as the code has it. The classifier tries its rules in a fixed order, on the
  fields as it reads them (in \<^verbatim>\<open>notion-query.js\<close> after \<^verbatim>\<open>normalizeAuthError\<close>, in
  \<^verbatim>\<open>office-cli.js\<close> on the payload itself), and the first rule whose condition holds
  decides what is printed, whatever fields of later rules are present: the missing
  session first, then the missing grant, then the account that is not linked, then the
  expired token or missing scopes, then the elevation, and the generic message last. No
  hypothesis of the first three rules mentions a field of a later rule; the later rules
  apply exactly when no earlier one does.
\<close>

theorem C3_describeAuthError_precedence:
  "(let e = jget (normalizeAuthError data); out = notion_describeAuthError data in
     (e ''error'' = Some (JStr ''no_agent_session'') \<longrightarrow>
        out = [[Lit ''No agent session. Run 'node notion-query.js login' first.'']])
   \<and> (includes_grant_code (e ''error'') \<longrightarrow>
        out = [[Lit ''No active grant for notion.''], [Lit ''''],
               [Lit ''Request access by running:''], [Lit ''  node notion-query.js request'']])
   \<and> (e ''error'' = Some (JStr ''no_oauth_token'') \<and> truthy (e ''connectUrl'') \<longrightarrow>
        out = [[Lit ''Notion account not linked.''], [Lit ''''],
               [Lit ''Link account at:''], [Lit ''  '', Val (e ''connectUrl'')]])
   \<and> (e ''error'' \<noteq> Some (JStr ''no_agent_session'') \<and> \<not> includes_grant_code (e ''error'')
        \<and> \<not> (e ''error'' = Some (JStr ''no_oauth_token'') \<and> truthy (e ''connectUrl''))
        \<and> truthy (e ''reauthorizeUrl'') \<longrightarrow>
        hd out = [Lit ''Access token expired or missing scopes.'']
        \<and> last out = [Lit ''  '', Val (e ''reauthorizeUrl'')])
   \<and> (e ''error'' \<noteq> Some (JStr ''no_agent_session'') \<and> \<not> includes_grant_code (e ''error'')
        \<and> \<not> (e ''error'' = Some (JStr ''no_oauth_token'') \<and> truthy (e ''connectUrl''))
        \<and> \<not> truthy (e ''reauthorizeUrl'') \<and> truthy (e ''elevateUrl'') \<longrightarrow>
        out = [[Lit ''Additional authorization required.''], [Lit ''''],
               [Lit ''Approve at:''], [Lit ''  '', Val (e ''elevateUrl'')]])
   \<and> (e ''error'' \<noteq> Some (JStr ''no_agent_session'') \<and> \<not> includes_grant_code (e ''error'')
        \<and> \<not> (e ''error'' = Some (JStr ''no_oauth_token'') \<and> truthy (e ''connectUrl''))
        \<and> \<not> truthy (e ''reauthorizeUrl'') \<and> \<not> truthy (e ''elevateUrl'') \<longrightarrow>
        out = (if truthy (e ''message'') \<or> truthy (e ''error'')
               then [[Val (jor (e ''message'') (e ''error''))]] else [])))
   \<and> (data \<noteq> JNull \<longrightarrow>
      (let e = jget data; out = office_describeAuthError data service in
        (e ''error'' = Some (JStr ''no_agent_session'') \<longrightarrow>
           out = (None, [[Lit ''No agent session. Run 'office-cli.js login' to register.'']]))
      \<and> (includes_grant_code (e ''error'') \<longrightarrow>
           out = (None, [[Lit ''No active grant for '', Lit service, Lit ''.''], [Lit ''''],
                  [Lit ''Request access by running:''],
                  [Lit ''  ./office-cli.js request '', Lit service]]))
      \<and> (e ''error'' = Some (JStr ''no_oauth_token'') \<and> truthy (e ''connectUrl'') \<longrightarrow>
           out = (None, [[Lit ''Microsoft account not linked.''], [Lit ''''],
                  [Lit ''To connect, visit:''], [Lit ''  '', Val (e ''connectUrl'')]]))
      \<and> (e ''error'' \<noteq> Some (JStr ''no_agent_session'') \<and> \<not> includes_grant_code (e ''error'')
           \<and> \<not> (e ''error'' = Some (JStr ''no_oauth_token'') \<and> truthy (e ''connectUrl''))
           \<and> truthy (e ''reauthorizeUrl'') \<longrightarrow>
           hd (snd out) = [Lit ''Access token expired or missing scopes.''])
      \<and> (e ''error'' \<noteq> Some (JStr ''no_agent_session'') \<and> \<not> includes_grant_code (e ''error'')
           \<and> \<not> (e ''error'' = Some (JStr ''no_oauth_token'') \<and> truthy (e ''connectUrl''))
           \<and> \<not> truthy (e ''reauthorizeUrl'') \<and> truthy (e ''elevateUrl'') \<longrightarrow>
           out = (None, [[Val (jor (e ''error'') (Some (JStr ''Access not authorised.'')))], [Lit ''''],
                  [Lit ''To grant access, visit:''], [Lit ''  '', Val (e ''elevateUrl'')]]))
      \<and> (e ''error'' \<noteq> Some (JStr ''no_agent_session'') \<and> \<not> includes_grant_code (e ''error'')
           \<and> \<not> (e ''error'' = Some (JStr ''no_oauth_token'') \<and> truthy (e ''connectUrl''))
           \<and> \<not> truthy (e ''reauthorizeUrl'') \<and> \<not> truthy (e ''elevateUrl'') \<longrightarrow>
           out = (None, [[Val (jor (jor (e ''message'') (e ''error''))
                                 (Some (JStr ''Authentication failed'')))]]))))"
  (is "?notion \<and> (?nonnull \<longrightarrow> ?office)")
proof (intro conjI impI)
  show ?notion
    unfolding Let_def notion_describeAuthError_def includes_grant_code_jor
    by (auto simp: includes_grant_code_iff)
next
  assume ?nonnull
  then show ?office
    unfolding Let_def office_describeAuthError_def includes_grant_code_jor
    by (auto simp: includes_grant_code_iff split: option.splits json.splits)
qed

text \<open>
  The instance that the specification names: a payload with the code \<^verbatim>\<open>no_grant\<close> and an
  \<^verbatim>\<open>elevateUrl\<close> gets the message of the missing grant in both clients.
\<close>

theorem C3_describeAuthError_precedence_witness:
  "notion_describeAuthError
     (JObj [(''error'', JStr ''no_grant''), (''elevateUrl'', JStr ''https://auth.example/elevate'')])
   = [[Lit ''No active grant for notion.''], [Lit ''''],
      [Lit ''Request access by running:''], [Lit ''  node notion-query.js request'']]
   \<and> office_describeAuthError
     (JObj [(''error'', JStr ''no_grant''), (''elevateUrl'', JStr ''https://auth.example/elevate'')])
     ''drive''
   = (None, [[Lit ''No active grant for '', Lit ''drive'', Lit ''.''], [Lit ''''],
             [Lit ''Request access by running:''],
             [Lit ''  ./office-cli.js request '', Lit ''drive'']])"
  using C3_describeAuthError_precedence
    [of "JObj [(''error'', JStr ''no_grant''), (''elevateUrl'', JStr ''https://auth.example/elevate'')]"
        "''drive''"]
  by (simp add: normalizeAuthError_def jor_def spread_def grant_codes_def)

text \<open>
  Claim C3 as the specification words it fails for \<^verbatim>\<open>notion-query.js\<close>: the payload below
  contains the \<^verbatim>\<open>error\<close> field \<^verbatim>\<open>no_grant\<close> and an \<^verbatim>\<open>elevateUrl\<close>, and it gets the message
  of the required elevation, because its \<^verbatim>\<open>details\<close> object overrides the code.
\<close>

theorem C3_counterexample:
  "notion_describeAuthError
     (JObj [(''error'', JStr ''no_grant''), (''elevateUrl'', JStr ''https://auth.example/elevate''),
            (''details'', JObj [(''error'', JStr ''forbidden'')])])
   = [[Lit ''Additional authorization required.''], [Lit ''''], [Lit ''Approve at:''],
      [Lit ''  '', Val (Some (JStr ''https://auth.example/elevate''))]]"
  by (simp add: notion_describeAuthError_def normalizeAuthError_def jor_def spread_def
        grant_codes_def)

section \<open>Properties of the session store\<close>






text \<open>
  A session that \<^verbatim>\<open>getAgentSession\<close> returns is never the empty string, so the test
  \<^verbatim>\<open>if (!agentSession)\<close> of its callers is the test for \<open>None\<close>.
\<close>

lemma getAgentSession_loop_nonempty:
  "getAgentSession_loop parse fs cands = Some s \<Longrightarrow> s \<noteq> []"
  by (induction cands)
     (auto simp: Let_def split: option.splits node.splits json.splits if_splits)

lemma getAgentSession_nonempty: "getAgentSession e fs = Some s \<Longrightarrow> s \<noteq> []"
  unfolding getAgentSession_def by (rule getAgentSession_loop_nonempty)




section \<open>Properties of the request pipeline\<close>

text \<open>
  Claim C7. When no agent session can be loaded, each of the three pipeline functions
  ends the process with exit code 1; all it has done by then is to print one line that
  tells the user to run \<^verbatim>\<open>login\<close>. The world is otherwise unchanged: no \<^verbatim>\<open>fetch\<close> was
  made.
\<close>

theorem C7_no_session_exits:
  assumes "getAgentSession e (files w) = None"
  shows "notionApi e method endpoint body attempt w
           = (Exit 1, w\<lparr>trace := trace w @
                [Stderr [Lit ''No agent session. Run 'node notion-query.js login' first.'']]\<rparr>)
       \<and> apiRequest e endpoint opts attempt w
           = (Exit 1, w\<lparr>trace := trace w @
                [Stderr [Lit ''Not registered. Run 'login' to create an agent session.'']]\<rparr>)
       \<and> fetchGraphContent e endpoint attempt w
           = (Exit 1, w\<lparr>trace := trace w @
                [Stderr [Lit ''Not registered. Run 'login' to create an agent session.'']]\<rparr>)"
  using assms
  by (simp add: notionApi.simps apiRequest.simps fetchGraphContent.simps console_error_def)

text \<open>The three calls on a machine without session files.\<close>

theorem C7_no_session_exits_witness:
  "notionApi (example_env no_network) ''POST'' ''/v1/search'' None 0 fresh_world
     = (Exit 1, fresh_world\<lparr>trace :=
          [Stderr [Lit ''No agent session. Run 'node notion-query.js login' first.'']]\<rparr>)
   \<and> apiRequest (example_env no_network) ''/me/drive/root/children''
        \<lparr>o_method = None, o_headers = None, o_body = NoBody\<rparr> 0 fresh_world
     = (Exit 1, fresh_world\<lparr>trace :=
          [Stderr [Lit ''Not registered. Run 'login' to create an agent session.'']]\<rparr>)
   \<and> fetchGraphContent (example_env no_network) ''/me/drive/items/42/content'' 0 fresh_world
     = (Exit 1, fresh_world\<lparr>trace :=
          [Stderr [Lit ''Not registered. Run 'login' to create an agent session.'']]\<rparr>)"
proof -
  have "getAgentSession (example_env no_network) (files fresh_world) = None"
    by (simp add: getAgentSession_def example_env_def fresh_world_def)
  from C7_no_session_exits [OF this] show ?thesis by (simp add: fresh_world_def)
qed

section \<open>Properties of the grant poll loop\<close>

lemma poll_loop_unfold:
  "poll_loop c e pollUrl s deadline lastStatus w =
     (if before_deadline w deadline then
        (case poll_step c e pollUrl s lastStatus w of
           Done r \<Rightarrow> r
         | Continue st w' \<Rightarrow> poll_loop c e pollUrl s deadline st w')
      else (Throw (Error [Lit ''Timed out waiting for authorization approval.'']), w))"
  by (subst poll_loop.simps)
     (simp add: poll_step_def Let_def split: prod.splits option.splits)


lemma console_error_simps [simp]:
  "trace (console_error ls w) = trace w @ map Stderr ls"
  "files (console_error ls w) = files w"
  "clock (console_error ls w) = clock w"
  "fetches (console_error ls w) = fetches w"
  by (simp_all add: console_error_def)

lemma sleep_simps [simp]:
  "trace (sleep ms w) = trace w @ [Sleep ms]"
  "files (sleep ms w) = files w"
  "clock (sleep ms w) = clock w + int ms"
  "fetches (sleep ms w) = fetches w"
  by (simp_all add: sleep_def)

lemma filter_io_Stderr [simp]: "filter is_io (map Stderr ls) = []"
  by (induction ls) simp_all

lemma fetch_facts:
  assumes "fetch e rq w = (res, w1)"
  shows "trace w1 = trace w @ [Fetch rq]" "fetches w1 = fetches w + 1"
    "clock w \<le> clock w1" "files w1 = files w"
    "clock w1 = clock w + latency e (fetches w) rq"
  using assms by (auto simp: fetch_def latency_def split: option.splits)

lemma extendsI: "trace w' = trace w @ evs \<Longrightarrow> extends w w' \<and> added w w' = evs"
  by (simp add: extends_def added_def)

lemma extends_refl [simp]: "extends w w" "added w w = []"
  by (simp_all add: extends_def added_def)

lemma extends_trans:
  assumes "extends w w1" "extends w1 w2"
  shows "extends w w2" "added w w2 = added w w1 @ added w1 w2"
proof -
  from assms have "trace w2 = trace w @ (added w w1 @ added w1 w2)"
    by (simp add: extends_def)
  from extendsI [OF this] show "extends w w2" "added w w2 = added w w1 @ added w1 w2"
    by simp_all
qed

lemma poll_step_Done:
  assumes "poll_step c e pollUrl s lastStatus w = Done (r, w')"
  shows "extends w w'" "filter is_io (added w w') = [Fetch (poll_request pollUrl s)]"
    and "files w' = files w" and "fetches w' = fetches w + 1"
proof -
  obtain res w1 where f: "fetch e (poll_request pollUrl s) w = (res, w1)"
    by (cases "fetch e (poll_request pollUrl s) w")
  note ff = fetch_facts [OF f]
  have *: "extends w1 w' \<and> filter is_io (added w1 w') = [] \<and> files w' = files w1
           \<and> fetches w' = fetches w1"
    using assms unfolding poll_step_def f
    by (auto simp: Let_def extends_def added_def
          split: option.splits prod.splits if_splits)
  have w1: "extends w w1" "added w w1 = [Fetch (poll_request pollUrl s)]"
    using extendsI [OF ff(1)] by simp_all
  from * w1 extends_trans [of w w1 w'] ff
  show "extends w w'" "filter is_io (added w w') = [Fetch (poll_request pollUrl s)]"
    "files w' = files w" "fetches w' = fetches w + 1"
    by simp_all
qed

lemma poll_step_Continue:
  assumes "poll_step c e pollUrl s lastStatus w = Continue st w'"
  shows "extends w w'"
    and "filter is_io (added w w') = [Fetch (poll_request pollUrl s), Sleep AUTO_REQUEST_POLL_MS]"
    and "files w' = files w" and "fetches w' = fetches w + 1"
    and "clock w + int AUTO_REQUEST_POLL_MS \<le> clock w'"
proof -
  obtain res w1 where f: "fetch e (poll_request pollUrl s) w = (res, w1)"
    by (cases "fetch e (poll_request pollUrl s) w")
  note ff = fetch_facts [OF f]
  have *: "extends w1 w' \<and> filter is_io (added w1 w') = [Sleep AUTO_REQUEST_POLL_MS]
           \<and> files w' = files w1 \<and> fetches w' = fetches w1
           \<and> clock w' = clock w1 + int AUTO_REQUEST_POLL_MS"
    using assms unfolding poll_step_def f
    by (auto simp: Let_def extends_def added_def
          split: option.splits prod.splits if_splits)
  have w1: "extends w w1" "added w w1 = [Fetch (poll_request pollUrl s)]"
    using extendsI [OF ff(1)] by simp_all
  from * w1 extends_trans [of w w1 w'] ff
  show "extends w w'"
    "filter is_io (added w w') = [Fetch (poll_request pollUrl s), Sleep AUTO_REQUEST_POLL_MS]"
    "files w' = files w" "fetches w' = fetches w + 1"
    "clock w + int AUTO_REQUEST_POLL_MS \<le> clock w'"
    by simp_all
qed


lemma snd_fetch: "snd (fetch e rq w) = fetched e rq w"
  by (simp add: fetch_def fetched_def latency_def split: option.splits)

lemma poll_status_SomeD:
  assumes "poll_status e (fetches w) rq = Some st"
  obtains r j where "fetch e rq w = (Some r, fetched e rq w)" "ok r"
    "JSON_parse e (rs_text r) = Some j" "j \<noteq> JNull" "st = jget j ''status''"
proof -
  from assms obtain r ms where n: "network e (fetches w) rq = Some (r, ms)"
    by (cases "network e (fetches w) rq") (auto simp: poll_status_def)
  with assms have okr: "ok r"
    by (auto simp: poll_status_def split: if_splits)
  with assms n obtain j where j: "JSON_parse e (rs_text r) = Some j"
    by (cases "JSON_parse e (rs_text r)") (auto simp: poll_status_def)
  with assms n okr have "j \<noteq> JNull" "st = jget j ''status''"
    by (auto simp: poll_status_def split: if_splits)
  moreover from n have "fetch e rq w = (Some r, fetched e rq w)"
    by (simp add: fetch_def fetched_def latency_def)
  ultimately show thesis using okr j that by blast
qed

lemma poll_step_nonterminal:
  assumes "poll_status e (fetches w) (poll_request pollUrl s) = Some st"
    and "st \<noteq> Some (JStr ''approved'')" "st \<noteq> Some (JStr ''denied'')"
    and "st \<noteq> Some (JStr ''expired'')"
  shows "poll_step c e pollUrl s lastStatus w =
     Continue st
       (sleep AUTO_REQUEST_POLL_MS
          (if \<not> strict_eq st lastStatus \<and> st = Some (JStr ''oauth_pending'')
           then console_error
                  [[Lit ''OAuth connection required. Complete it in your browser...'']]
                  (fetched e (poll_request pollUrl s) w)
           else fetched e (poll_request pollUrl s) w))"
proof -
  from assms(1) obtain r j where
    "fetch e (poll_request pollUrl s) w = (Some r, fetched e (poll_request pollUrl s) w)"
    "ok r" "JSON_parse e (rs_text r) = Some j" "j \<noteq> JNull" "st = jget j ''status''"
    by (rule poll_status_SomeD)
  with assms(2-4) show ?thesis
    by (simp add: poll_step_def Let_def)
qed

lemma poll_step_approved:
  assumes "poll_status e (fetches w) (poll_request pollUrl s) = Some (Some (JStr ''approved''))"
  shows "poll_step c e pollUrl s lastStatus w =
           Done (Return (), fetched e (poll_request pollUrl s) w)"
proof -
  from assms obtain r j where
    "fetch e (poll_request pollUrl s) w = (Some r, fetched e (poll_request pollUrl s) w)"
    "ok r" "JSON_parse e (rs_text r) = Some j" "j \<noteq> JNull"
    "Some (JStr ''approved'') = jget j ''status''"
    by (rule poll_status_SomeD)
  moreover from this have "jget j ''status'' = Some (JStr ''approved'')" by simp
  ultimately show ?thesis
    by (simp add: poll_step_def Let_def)
qed

text \<open>The loop on \<open>n\<close> pending answers followed by an approval.\<close>

lemma poll_loop_pending_approved:
  assumes "\<forall>k<n. poll_status e (fetches w + k) (poll_request pollUrl s) = Some (Some (JStr ''pending''))"
    and "poll_status e (fetches w + n) (poll_request pollUrl s) = Some (Some (JStr ''approved''))"
    and "\<forall>k\<le>n. check_time e (poll_request pollUrl s) (clock w) (fetches w) k < d"
  shows "poll_loop c e pollUrl s (Some d) lastStatus w =
     (Return (),
      w\<lparr>clock := check_time e (poll_request pollUrl s) (clock w) (fetches w) n
                  + latency e (fetches w + n) (poll_request pollUrl s),
        fetches := fetches w + n + 1,
        trace := trace w
          @ concat (replicate n [Fetch (poll_request pollUrl s), Sleep AUTO_REQUEST_POLL_MS])
          @ [Fetch (poll_request pollUrl s)]\<rparr>)"
  using assms
proof (induction n arbitrary: w lastStatus)
  case 0
  then have bd: "before_deadline w (Some d)" by (simp add: before_deadline_def)
  from 0 have "poll_step c e pollUrl s lastStatus w
                 = Done (Return (), fetched e (poll_request pollUrl s) w)"
    by (intro poll_step_approved) simp
  with bd show ?case
    by (subst poll_loop_unfold) (simp add: fetched_def)
next
  case (Suc n)
  let ?rq = "poll_request pollUrl s"
  let ?w' = "sleep AUTO_REQUEST_POLL_MS (fetched e ?rq w)"
  from Suc.prems(3) have "check_time e ?rq (clock w) (fetches w) 0 < d" by blast
  then have bd: "before_deadline w (Some d)"
    by (simp add: before_deadline_def)
  from Suc.prems(1) have "poll_status e (fetches w + 0) ?rq = Some (Some (JStr ''pending''))"
    by blast
  then have p0: "poll_status e (fetches w) ?rq = Some (Some (JStr ''pending''))" by simp
  have step: "poll_step c e pollUrl s lastStatus w = Continue (Some (JStr ''pending'')) ?w'"
    using poll_step_nonterminal [OF p0, of c lastStatus] by simp
  have f': "fetches ?w' = Suc (fetches w)" by (simp add: fetched_def)
  have ct: "check_time e ?rq (clock ?w') (fetches ?w') k = check_time e ?rq (clock w) (fetches w) (Suc k)" for k
    by (simp add: fetched_def)
  have 1: "\<forall>k<n. poll_status e (fetches ?w' + k) ?rq = Some (Some (JStr ''pending''))"
  proof (intro allI impI)
    fix k assume "k < n"
    then have "Suc k < Suc n" by simp
    with Suc.prems(1) have "poll_status e (fetches w + Suc k) ?rq = Some (Some (JStr ''pending''))"
      by blast
    then show "poll_status e (fetches ?w' + k) ?rq = Some (Some (JStr ''pending''))"
      by (simp add: fetched_def)
  qed
  have 2: "poll_status e (fetches ?w' + n) ?rq = Some (Some (JStr ''approved''))"
    using Suc.prems(2) by (simp add: fetched_def)
  have 3: "\<forall>k\<le>n. check_time e ?rq (clock ?w') (fetches ?w') k < d"
  proof (intro allI impI)
    fix k assume "k \<le> n"
    then have "Suc k \<le> Suc n" by simp
    with Suc.prems(3) have "check_time e ?rq (clock w) (fetches w) (Suc k) < d" by blast
    then show "check_time e ?rq (clock ?w') (fetches ?w') k < d" by (simp only: ct)
  qed
  have "poll_loop c e pollUrl s (Some d) lastStatus w
          = poll_loop c e pollUrl s (Some d) (Some (JStr ''pending'')) ?w'"
    by (subst poll_loop_unfold) (simp only: bd step if_True iteration.case)
  also note Suc.IH [OF 1 2 3, of "Some (JStr ''pending'')"]
  also have "(Return (),
      ?w'\<lparr>clock := check_time e ?rq (clock ?w') (fetches ?w') n + latency e (fetches ?w' + n) ?rq,
        fetches := fetches ?w' + n + 1,
        trace := trace ?w' @ concat (replicate n [Fetch ?rq, Sleep AUTO_REQUEST_POLL_MS]) @ [Fetch ?rq]\<rparr>)
    = (Return (),
      w\<lparr>clock := check_time e ?rq (clock w) (fetches w) (Suc n) + latency e (fetches w + Suc n) ?rq,
        fetches := fetches w + Suc n + 1,
        trace := trace w @ concat (replicate (Suc n) [Fetch ?rq, Sleep AUTO_REQUEST_POLL_MS]) @ [Fetch ?rq]\<rparr>)"
    by (simp add: fetched_def sleep_def)
  finally show ?case .
qed


lemma loop_measure_less:
  assumes "before_deadline w d" "clock w + int AUTO_REQUEST_POLL_MS \<le> clock w'"
  shows "loop_measure d w' < loop_measure d w"
  using assms
  by (auto simp: loop_measure_def before_deadline_def AUTO_REQUEST_POLL_MS_def split: option.splits)

lemma poll_pattern_Cons2 [simp]:
  "poll_pattern rq (Fetch rq # Sleep AUTO_REQUEST_POLL_MS # rest) = poll_pattern rq rest"
  by simp

text \<open>The traffic of the loop, whatever the network answers.\<close>

lemma poll_loop_traffic:
  "extends w (snd (poll_loop c e pollUrl s d lastStatus w))
   \<and> poll_pattern (poll_request pollUrl s)
        (filter is_io (added w (snd (poll_loop c e pollUrl s d lastStatus w))))
   \<and> files (snd (poll_loop c e pollUrl s d lastStatus w)) = files w"
proof (induction "loop_measure d w" arbitrary: w lastStatus rule: less_induct)
  case less
  show ?case
  proof (cases "before_deadline w d")
    case False
    then show ?thesis by (subst (1 2 3) poll_loop_unfold) simp
  next
    case True
    show ?thesis
    proof (cases "poll_step c e pollUrl s lastStatus w")
      case (Done res)
      obtain r w' where res: "res = (r, w')" by (cases res)
      from poll_step_Done [OF Done [unfolded res]] True Done res
      show ?thesis by (subst (1 2 3) poll_loop_unfold) simp
    next
      case (Continue st w')
      note facts = poll_step_Continue [OF Continue]
      let ?w'' = "snd (poll_loop c e pollUrl s d st w')"
      from loop_measure_less [OF True facts(5)]
      have IH: "extends w' ?w''"
        "poll_pattern (poll_request pollUrl s) (filter is_io (added w' ?w''))"
        "files ?w'' = files w'"
        using less [of w' st] by simp_all
      have eq: "poll_loop c e pollUrl s d lastStatus w = poll_loop c e pollUrl s d st w'"
        using True Continue by (subst poll_loop_unfold) simp
      from extends_trans [OF facts(1) IH(1)] facts IH
      show ?thesis unfolding eq by simp
    qed
  qed
qed

text \<open>The number of polls is bounded by the time left.\<close>

lemma poll_loop_bound:
  "fetches w \<le> fetches (snd (poll_loop c e pollUrl s (Some t) lastStatus w))
   \<and> int AUTO_REQUEST_POLL_MS
        * int (fetches (snd (poll_loop c e pollUrl s (Some t) lastStatus w)) - fetches w)
      \<le> max 0 (t - clock w + (int AUTO_REQUEST_POLL_MS - 1))"
proof (induction "loop_measure (Some t) w" arbitrary: w lastStatus rule: less_induct)
  case less
  show ?case
  proof (cases "before_deadline w (Some t)")
    case False
    then show ?thesis by (subst (1 2) poll_loop_unfold) simp
  next
    case True
    then have lt: "clock w < t" by (simp add: before_deadline_def)
    show ?thesis
    proof (cases "poll_step c e pollUrl s lastStatus w")
      case (Done res)
      obtain r w' where res: "res = (r, w')" by (cases res)
      from poll_step_Done [OF Done [unfolded res]] True Done res lt
      show ?thesis by (subst (1 2) poll_loop_unfold) simp
    next
      case (Continue st w')
      note facts = poll_step_Continue [OF Continue]
      let ?w'' = "snd (poll_loop c e pollUrl s (Some t) st w')"
      have "fetches w' \<le> fetches ?w''
          \<and> int AUTO_REQUEST_POLL_MS * int (fetches ?w'' - fetches w')
           \<le> max 0 (t - clock w' + (int AUTO_REQUEST_POLL_MS - 1))"
        by (rule less [OF loop_measure_less [OF True facts(5)]])
      then have IH: "fetches w' \<le> fetches ?w''"
        "int AUTO_REQUEST_POLL_MS * int (fetches ?w'' - fetches w')
           \<le> max 0 (t - clock w' + (int AUTO_REQUEST_POLL_MS - 1))"
        by blast+
      have eq: "poll_loop c e pollUrl s (Some t) lastStatus w = poll_loop c e pollUrl s (Some t) st w'"
        using True Continue by (subst poll_loop_unfold) simp
      have "fetches ?w'' - fetches w = Suc (fetches ?w'' - fetches w')"
        using IH(1) facts(4) by simp
      then have "int AUTO_REQUEST_POLL_MS * int (fetches ?w'' - fetches w)
                   = int AUTO_REQUEST_POLL_MS + int AUTO_REQUEST_POLL_MS * int (fetches ?w'' - fetches w')"
        by (simp add: algebra_simps)
      also have "\<dots> \<le> int AUTO_REQUEST_POLL_MS + max 0 (t - clock w' + (int AUTO_REQUEST_POLL_MS - 1))"
        using IH(2) by simp
      also have "\<dots> \<le> max 0 (t - clock w + (int AUTO_REQUEST_POLL_MS - 1))"
        using facts(5) lt by (simp add: AUTO_REQUEST_POLL_MS_def max_def)
      finally show ?thesis unfolding eq using IH(1) facts(4) by simp
    qed
  qed
qed

text \<open>A loop that only ever sees non-terminal statuses runs into the deadline.\<close>

lemma poll_loop_timeout:
  assumes "\<forall>i. \<exists>st. poll_status e i (poll_request pollUrl s) = Some st
              \<and> st \<noteq> Some (JStr ''approved'') \<and> st \<noteq> Some (JStr ''denied'')
              \<and> st \<noteq> Some (JStr ''expired'')"
  shows "fst (poll_loop c e pollUrl s d lastStatus w)
           = Throw (Error [Lit ''Timed out waiting for authorization approval.''])
         \<and> \<not> before_deadline (snd (poll_loop c e pollUrl s d lastStatus w)) d"
proof (induction "loop_measure d w" arbitrary: w lastStatus rule: less_induct)
  case less
  show ?case
  proof (cases "before_deadline w d")
    case False
    then show ?thesis by (subst (1 2) poll_loop_unfold) simp
  next
    case True
    from assms obtain st where st: "poll_status e (fetches w) (poll_request pollUrl s) = Some st"
      "st \<noteq> Some (JStr ''approved'')" "st \<noteq> Some (JStr ''denied'')" "st \<noteq> Some (JStr ''expired'')"
      by blast
    from poll_step_nonterminal [OF st, of c lastStatus]
    obtain w' where Continue: "poll_step c e pollUrl s lastStatus w = Continue st w'"
      by blast
    note facts = poll_step_Continue [OF Continue]
    have eq: "poll_loop c e pollUrl s d lastStatus w = poll_loop c e pollUrl s d st w'"
      using True Continue by (subst poll_loop_unfold) simp
    from loop_measure_less [OF True facts(5)] less [of w' st]
    show ?thesis unfolding eq by simp
  qed
qed


lemma count_poll_events:
  "length (filter (\<lambda>ev. ev = Fetch rq) (concat (replicate n [Fetch rq, Sleep ms]) @ [Fetch rq])) = n + 1"
  "length (filter (\<lambda>ev. ev = Sleep ms) (concat (replicate n [Fetch rq, Sleep ms]) @ [Fetch rq])) = n"
  by (induction n) simp_all

text \<open>
  Claim C4. With a session loaded, let the poll endpoint answer \<^verbatim>\<open>pending\<close> to the first
  \<open>n\<close> polls and \<^verbatim>\<open>approved\<close> to the next one, and let every test of the loop condition
  up to that poll find the clock before the deadline. Then \<^verbatim>\<open>waitForGrantApproval\<close>
  returns, and what it has added to the trace is \<open>n\<close> times a GET of the poll URL
  followed by a sleep, and one more GET: \<open>n + 1\<close> GETs and \<open>n\<close> sleeps of 2000 ms.
\<close>

theorem C4_pending_then_approved:
  assumes "getAgentSession e (files w) = Some s"
    and "\<forall>k<n. poll_status e (fetches w + k) (poll_request pollUrl s) = Some (Some (JStr ''pending''))"
    and "poll_status e (fetches w + n) (poll_request pollUrl s) = Some (Some (JStr ''approved''))"
    and "grant_deadline e expiresAt w = Some d"
    and "\<forall>k\<le>n. check_time e (poll_request pollUrl s) (clock w) (fetches w) k < d"
  shows "fst (waitForGrantApproval c e pollUrl expiresAt w) = Return ()
    \<and> trace (snd (waitForGrantApproval c e pollUrl expiresAt w))
        = trace w @ concat (replicate n [Fetch (poll_request pollUrl s), Sleep AUTO_REQUEST_POLL_MS])
            @ [Fetch (poll_request pollUrl s)]
    \<and> length (filter (\<lambda>ev. ev = Fetch (poll_request pollUrl s))
         (added w (snd (waitForGrantApproval c e pollUrl expiresAt w)))) = n + 1
    \<and> length (filter (\<lambda>ev. ev = Sleep AUTO_REQUEST_POLL_MS)
         (added w (snd (waitForGrantApproval c e pollUrl expiresAt w)))) = n
    \<and> AUTO_REQUEST_POLL_MS = 2000"
proof -
  have "waitForGrantApproval c e pollUrl expiresAt w
          = poll_loop c e pollUrl s (Some d) (Some JNull) w"
    using assms(1,4) by (simp add: waitForGrantApproval_def)
  also note poll_loop_pending_approved [OF assms(2,3,5)]
  finally have eq: "waitForGrantApproval c e pollUrl expiresAt w =
     (Return (),
      w\<lparr>clock := check_time e (poll_request pollUrl s) (clock w) (fetches w) n
                  + latency e (fetches w + n) (poll_request pollUrl s),
        fetches := fetches w + n + 1,
        trace := trace w
          @ concat (replicate n [Fetch (poll_request pollUrl s), Sleep AUTO_REQUEST_POLL_MS])
          @ [Fetch (poll_request pollUrl s)]\<rparr>)" .
  have ad: "added w (snd (waitForGrantApproval c e pollUrl expiresAt w))
      = concat (replicate n [Fetch (poll_request pollUrl s), Sleep AUTO_REQUEST_POLL_MS])
          @ [Fetch (poll_request pollUrl s)]"
    by (simp add: eq added_def)
  show ?thesis
    unfolding ad count_poll_events
    by (simp add: eq) (simp add: AUTO_REQUEST_POLL_MS_def)
qed

lemma logged_in_session:
  "getAgentSession (example_env net) (files logged_in_world) = Some ''sess-abc''"
  by (simp add: getAgentSession_def example_env_def logged_in_world_def trim_def is_space_def
        example_parse_def)

lemma polls_status:
  "poll_status (example_env (polls n)) i rq
     = Some (Some (JStr (if i < n then ''pending'' else ''approved'')))"
  by (simp add: poll_status_def example_env_def polls_def answer_def ok_def example_parse_def)

lemma polls_latency: "latency (example_env (polls n)) i rq = 150"
  by (simp add: latency_def example_env_def polls_def)

text \<open>Two pending answers and an approval, with the default deadline of five minutes.\<close>

theorem C4_witness:
  "fst (waitForGrantApproval NotionQuery (example_env (polls 2)) example_pollUrl None logged_in_world)
     = Return ()
   \<and> trace (snd (waitForGrantApproval NotionQuery (example_env (polls 2)) example_pollUrl None
        logged_in_world))
     = [Fetch (poll_request example_pollUrl ''sess-abc''), Sleep 2000,
        Fetch (poll_request example_pollUrl ''sess-abc''), Sleep 2000,
        Fetch (poll_request example_pollUrl ''sess-abc'')]"
proof -
  let ?e = "example_env (polls 2)"
  let ?rq = "poll_request example_pollUrl ''sess-abc''"
  have 1: "\<forall>k<2. poll_status ?e (fetches logged_in_world + k) ?rq = Some (Some (JStr ''pending''))"
    by (simp add: polls_status logged_in_world_def)
  have 2: "poll_status ?e (fetches logged_in_world + 2) ?rq = Some (Some (JStr ''approved''))"
    by (simp add: polls_status logged_in_world_def)
  have 3: "grant_deadline ?e None logged_in_world = Some 300000"
    by (simp add: grant_deadline_def logged_in_world_def)
  have 4: "\<forall>k\<le>2. check_time ?e ?rq (clock logged_in_world) (fetches logged_in_world) k < 300000"
  proof (intro allI impI)
    fix k :: nat assume "k \<le> 2"
    then have "k = 0 \<or> k = Suc 0 \<or> k = Suc (Suc 0)" by arith
    then show "check_time ?e ?rq (clock logged_in_world) (fetches logged_in_world) k < 300000"
      by (auto simp: polls_latency logged_in_world_def AUTO_REQUEST_POLL_MS_def)
  qed
  from C4_pending_then_approved [OF logged_in_session 1 2 3 4, of NotionQuery]
  show ?thesis
    by (simp add: logged_in_world_def numeral_2_eq_2 AUTO_REQUEST_POLL_MS_def)
qed

text \<open>
  Claim C5, as the code has it. Each iteration of the poll loop first GETs the poll URL
  with the session header and sleeps the fixed 2000 ms afterwards, unless the answer
  ended the loop: the traffic that \<^verbatim>\<open>waitForGrantApproval\<close> adds to the trace is a
  sequence of GETs of the poll request, each but possibly the last followed by one sleep
  of 2000 ms. It starts with a GET, and every sleep comes directly after a GET.
\<close>

theorem C5_poll_then_sleep:
  assumes "getAgentSession e (files w) = Some s"
  shows "extends w (snd (waitForGrantApproval c e pollUrl expiresAt w))
    \<and> poll_pattern (poll_request pollUrl s)
        (filter is_io (added w (snd (waitForGrantApproval c e pollUrl expiresAt w))))
    \<and> rq_headers (poll_request pollUrl s) = [(''X-Agent-Session'', s)]
    \<and> rq_method (poll_request pollUrl s) = ''GET''
    \<and> AUTO_REQUEST_POLL_MS = 2000"
  using assms poll_loop_traffic [of w c e pollUrl s "grant_deadline e expiresAt w" "Some JNull"]
  by (simp add: waitForGrantApproval_def poll_request_def AUTO_REQUEST_POLL_MS_def)

text \<open>The traffic of a run with one pending answer has this shape.\<close>

theorem C5_witness:
  "poll_pattern (poll_request example_pollUrl ''sess-abc'')
     (filter is_io (added logged_in_world
        (snd (waitForGrantApproval OfficeCli (example_env (polls 1)) example_pollUrl None
                logged_in_world))))"
  using C5_poll_then_sleep
    [where e = "example_env (polls 1)" and w = logged_in_world and s = "''sess-abc''"
       and c = OfficeCli and pollUrl = example_pollUrl and expiresAt = None,
     OF logged_in_session]
  by simp

text \<open>
  Claim C5 as the specification words it fails: in the run with one pending answer the
  first event is the GET, which no sleep precedes, and there are two GETs and one sleep.
\<close>

theorem C5_counterexample:
  "trace (snd (waitForGrantApproval OfficeCli (example_env (polls 1)) example_pollUrl None
                 logged_in_world))
   = [Fetch (poll_request example_pollUrl ''sess-abc''), Sleep 2000,
      Fetch (poll_request example_pollUrl ''sess-abc'')]"
proof -
  let ?e = "example_env (polls 1)"
  let ?rq = "poll_request example_pollUrl ''sess-abc''"
  have 1: "\<forall>k<1. poll_status ?e (fetches logged_in_world + k) ?rq = Some (Some (JStr ''pending''))"
    by (simp add: polls_status logged_in_world_def)
  have 2: "poll_status ?e (fetches logged_in_world + 1) ?rq = Some (Some (JStr ''approved''))"
    by (simp add: polls_status logged_in_world_def)
  have 4: "\<forall>k\<le>1. check_time ?e ?rq (clock logged_in_world) (fetches logged_in_world) k < 300000"
  proof (intro allI impI)
    fix k :: nat assume "k \<le> 1"
    then have "k = 0 \<or> k = Suc 0" by arith
    then show "check_time ?e ?rq (clock logged_in_world) (fetches logged_in_world) k < 300000"
      by (auto simp: polls_latency logged_in_world_def AUTO_REQUEST_POLL_MS_def)
  qed
  have d: "grant_deadline ?e None logged_in_world = Some 300000"
    by (simp add: grant_deadline_def logged_in_world_def)
  have "waitForGrantApproval OfficeCli ?e example_pollUrl None logged_in_world
          = poll_loop OfficeCli ?e example_pollUrl ''sess-abc'' (Some 300000) (Some JNull) logged_in_world"
    unfolding waitForGrantApproval_def logged_in_session d by simp
  also note poll_loop_pending_approved [OF 1 2 4]
  finally show ?thesis
    by (simp add: logged_in_world_def AUTO_REQUEST_POLL_MS_def)
qed

text \<open>
  Claim C6. The deadline is the time of \<^verbatim>\<open>expiresAt\<close> when the broker's answer carries one
  (a truthy value), and five minutes after the current time otherwise. With a session
  loaded, when every poll is answered with a status other than \<^verbatim>\<open>approved\<close>, \<^verbatim>\<open>denied\<close>
  and \<^verbatim>\<open>expired\<close>, \<^verbatim>\<open>waitForGrantApproval\<close> throws the timeout error, at a time that is
  not before the deadline. It does not poll for ever: in every run the number of polls
  times 2000 ms is bounded by the time that was left until the deadline.
\<close>

theorem C6_deadline_and_timeout:
  assumes "getAgentSession e (files w) = Some s"
    and "\<forall>i. \<exists>st. poll_status e i (poll_request pollUrl s) = Some st
              \<and> st \<noteq> Some (JStr ''approved'') \<and> st \<noteq> Some (JStr ''denied'')
              \<and> st \<noteq> Some (JStr ''expired'')"
  shows "grant_deadline e expiresAt w
           = (if truthy expiresAt then Date_getTime e (the expiresAt)
              else Some (clock w + 300000))
    \<and> fst (waitForGrantApproval c e pollUrl expiresAt w)
        = Throw (Error [Lit ''Timed out waiting for authorization approval.''])
    \<and> \<not> before_deadline (snd (waitForGrantApproval c e pollUrl expiresAt w))
          (grant_deadline e expiresAt w)
    \<and> (\<forall>t. grant_deadline e expiresAt w = Some t \<longrightarrow>
          2000 * int (fetches (snd (waitForGrantApproval c e pollUrl expiresAt w)) - fetches w)
            \<le> max 0 (t - clock w + 1999))"
proof -
  have w: "waitForGrantApproval c e pollUrl expiresAt w
          = poll_loop c e pollUrl s (grant_deadline e expiresAt w) (Some JNull) w"
    using assms(1) by (simp add: waitForGrantApproval_def)
  have b: "2000 * int (fetches (snd (poll_loop c e pollUrl s (Some t) (Some JNull) w)) - fetches w)
            \<le> max 0 (t - clock w + 1999)" for t
    using poll_loop_bound [of w c e pollUrl s t "Some JNull", THEN conjunct2]
    unfolding AUTO_REQUEST_POLL_MS_def by simp
  show ?thesis
    unfolding w using poll_loop_timeout [OF assms(2), of c "grant_deadline e expiresAt w" "Some JNull" w] b
    by (auto simp: grant_deadline_def)
qed

text \<open>
  An endpoint that answers \<^verbatim>\<open>pending\<close> for ever, with a deadline five seconds after the
  start; and the default deadline.
\<close>

theorem C6_witness:
  "fst (waitForGrantApproval NotionQuery (example_env always_pending) example_pollUrl
          (Some (JStr ''1970-01-01T00:00:05.000Z'')) logged_in_world)
     = Throw (Error [Lit ''Timed out waiting for authorization approval.''])
   \<and> grant_deadline (example_env always_pending) (Some (JStr ''1970-01-01T00:00:05.000Z''))
        logged_in_world = Some 5000
   \<and> grant_deadline (example_env always_pending) None logged_in_world = Some 300000"
proof -
  have "\<forall>i. \<exists>st. poll_status (example_env always_pending) i (poll_request example_pollUrl ''sess-abc'') = Some st
              \<and> st \<noteq> Some (JStr ''approved'') \<and> st \<noteq> Some (JStr ''denied'')
              \<and> st \<noteq> Some (JStr ''expired'')"
    by (simp add: poll_status_def example_env_def always_pending_def answer_def ok_def
          example_parse_def)
  from C6_deadline_and_timeout
      [where expiresAt = "Some (JStr ''1970-01-01T00:00:05.000Z'')" and c = NotionQuery,
       OF logged_in_session this]
    C6_deadline_and_timeout
      [where expiresAt = None and c = NotionQuery, OF logged_in_session this]
  show ?thesis
    by (simp add: example_env_def example_getTime_def logged_in_world_def)
qed

section \<open>Properties of the retry\<close>

subsection \<open>The grant flow makes no pipeline request\<close>

lemma only_grant_traffic_simps [simp]:
  "only_grant_traffic []"
  "only_grant_traffic (xs @ ys) = (only_grant_traffic xs \<and> only_grant_traffic ys)"
  "only_grant_traffic (map Stderr ls)"
  "only_grant_traffic (Fetch q # xs) = (grant_flow_request q \<and> only_grant_traffic xs)"
  "only_grant_traffic (Stderr m # xs) = only_grant_traffic xs"
  "only_grant_traffic (Sleep ms # xs) = only_grant_traffic xs"
  by (auto simp: only_grant_traffic_def)

lemma grant_flow_requests [simp]:
  "grant_flow_request (grant_request c e s)" "grant_flow_request (poll_request u s)"
  by (simp_all add: grant_flow_request_def grant_request_def poll_request_def)

lemma poll_pattern_fetches:
  "poll_pattern rq evs \<Longrightarrow> Fetch q \<in> set evs \<Longrightarrow> q = rq"
  by (induction rq evs rule: poll_pattern.induct) auto

lemma Fetch_in_filter_io: "Fetch q \<in> set (filter is_io evs) \<longleftrightarrow> Fetch q \<in> set evs"
  by auto

lemma poll_loop_grant_traffic:
  "only_grant_traffic (added w (snd (poll_loop c e pollUrl s d lastStatus w)))"
  unfolding only_grant_traffic_def
proof (intro allI impI)
  fix q assume "Fetch q \<in> set (added w (snd (poll_loop c e pollUrl s d lastStatus w)))"
  then have "Fetch q \<in> set (filter is_io (added w (snd (poll_loop c e pollUrl s d lastStatus w))))"
    by (simp only: Fetch_in_filter_io)
  with poll_loop_traffic [of w c e pollUrl s d lastStatus]
  have "q = poll_request pollUrl s" by (blast dest: poll_pattern_fetches)
  then show "grant_flow_request q" by simp
qed

lemma waitForGrantApproval_trace:
  "extends w (snd (waitForGrantApproval c e pollUrl expiresAt w))
   \<and> only_grant_traffic (added w (snd (waitForGrantApproval c e pollUrl expiresAt w)))
   \<and> files (snd (waitForGrantApproval c e pollUrl expiresAt w)) = files w"
proof (cases "getAgentSession e (files w)")
  case None
  then show ?thesis
    by (simp add: waitForGrantApproval_def extends_def added_def)
next
  case (Some s)
  then show ?thesis
    using poll_loop_traffic [of w c e pollUrl s "grant_deadline e expiresAt w" "Some JNull"]
      poll_loop_grant_traffic [of w c e pollUrl s "grant_deadline e expiresAt w" "Some JNull"]
    by (simp add: waitForGrantApproval_def)
qed

lemma requestGrant_trace:
  "extends w (snd (requestGrant c e w))
   \<and> only_grant_traffic (added w (snd (requestGrant c e w)))
   \<and> files (snd (requestGrant c e w)) = files w"
proof (cases "getAgentSession e (files w)")
  case None
  then show ?thesis
    by (simp add: requestGrant_def extends_def added_def)
next
  case (Some s)
  obtain res w1 where f: "fetch e (grant_request c e s) w = (res, w1)"
    by (cases "fetch e (grant_request c e s) w")
  note ff = fetch_facts [OF f]
  have "snd (requestGrant c e w) = w1"
    using Some f by (simp add: requestGrant_def split: option.splits prod.splits)
  with extendsI [OF ff(1)] ff(4) show ?thesis by simp
qed

lemma console_error_trace:
  assumes "extends w w1" "only_grant_traffic (added w w1)"
  shows "extends w (console_error ls w1)"
    "only_grant_traffic (added w (console_error ls w1))"
proof -
  have "extends w1 (console_error ls w1) \<and> added w1 (console_error ls w1) = map Stderr ls"
    by (rule extendsI) simp
  with extends_trans [OF assms(1), of "console_error ls w1"] assms(2)
  show "extends w (console_error ls w1)" "only_grant_traffic (added w (console_error ls w1))"
    by simp_all
qed

lemma ensureGrant_trace:
  "extends w (snd (ensureGrant c e w))
   \<and> only_grant_traffic (added w (snd (ensureGrant c e w)))
   \<and> files (snd (ensureGrant c e w)) = files w"
proof (cases "AUTO_REQUEST_ENABLED e")
  case False
  then show ?thesis by (simp add: ensureGrant_def)
next
  case True
  obtain g w1 where rg: "requestGrant c e w = (g, w1)" by (cases "requestGrant c e w")
  from requestGrant_trace [of w c e] rg
  have w1: "extends w w1" "only_grant_traffic (added w w1)" "files w1 = files w" by simp_all
  show ?thesis
  proof (cases g)
    case (Return request)
    show ?thesis
    proof (cases "request = JNull")
      case True
      with \<open>AUTO_REQUEST_ENABLED e\<close> rg Return have "snd (ensureGrant c e w) = w1"
        by (simp add: ensureGrant_def)
      with w1 show ?thesis by simp
    next
      case nonnull: False
      show ?thesis
      proof (cases "truthy (jget request ''autoApproved'')")
        case True
        with nonnull \<open>AUTO_REQUEST_ENABLED e\<close> rg Return
        have "snd (ensureGrant c e w)
                = console_error [[Lit ''Access granted automatically (within policy).'']] w1"
          by (simp add: ensureGrant_def)
        with console_error_trace [OF w1(1,2)] w1(3) show ?thesis by simp
      next
        case False
        let ?w2 = "console_error
                   [[Lit ''Authorization required for '', Lit (service_name c e), Lit '' access.''],
                    [Lit ''Approve at: '', Val (jget request ''approveUrl'')],
                    [Lit ''Waiting for approval...'']] w1"
        let ?r = "waitForGrantApproval c e (jget request ''pollUrl'') (jget request ''expiresAt'') ?w2"
        have a: "extends w ?w2" "only_grant_traffic (added w ?w2)" "files ?w2 = files w"
          using console_error_trace [OF w1(1,2)] w1(3) by simp_all
        note b = waitForGrantApproval_trace
          [of ?w2 c e "jget request ''pollUrl''" "jget request ''expiresAt''"]
        have c: "extends w (snd ?r)" "only_grant_traffic (added w (snd ?r))" "files (snd ?r) = files w"
          using extends_trans [OF a(1), of "snd ?r"] a b by simp_all
        have "snd (ensureGrant c e w) = snd ?r
              \<or> snd (ensureGrant c e w)
                  = console_error [[Lit ''Authorization granted. Retrying request...'']] (snd ?r)"
          using False nonnull \<open>AUTO_REQUEST_ENABLED e\<close> rg Return
          by (cases ?r; cases "fst ?r") (simp_all add: ensureGrant_def)
        with c console_error_trace [OF c(1,2)] show ?thesis by auto
      qed
    qed
  next
    case (Throw x)
    with True rg w1 show ?thesis by (simp add: ensureGrant_def)
  next
    case (Exit n)
    with True rg w1 show ?thesis by (simp add: ensureGrant_def)
  qed
qed

subsection \<open>The first and the last attempt\<close>

lemma falsy_not_object:
  assumes "\<not> truthy (Some data)" "named k"
  shows "jgetq (Some data) k = None"
  using assms by (cases data) (auto simp: named_def index_keys_None)

lemma notion_isAutoRequestError_truthy:
  assumes "notion_isAutoRequestError data"
  shows "truthy (Some data)"
proof (rule ccontr)
  assume f: "\<not> truthy (Some data)"
  have "jget (normalizeAuthError data) ''error'' = None"
    unfolding normalizeAuthError_field [OF named_keys(1)]
    by (simp add: falsy_not_object [OF f])
  with assms show False by (simp add: notion_isAutoRequestError_iff)
qed

lemma office_isAutoRequestError_truthy:
  assumes "office_isAutoRequestError data"
  shows "truthy (Some data)"
proof (rule ccontr)
  assume f: "\<not> truthy (Some data)"
  with assms show False
    by (simp add: office_isAutoRequestError_iff falsy_not_object [OF f])
qed

lemma office_describe_retryable:
  assumes "office_isAutoRequestError data"
  shows "office_describeAuthError data service =
           (None, [[Lit ''No active grant for '', Lit service, Lit ''.''], [Lit ''''],
                   [Lit ''Request access by running:''],
                   [Lit ''  ./office-cli.js request '', Lit service]])"
proof -
  from office_isAutoRequestError_truthy [OF assms] have nn: "data \<noteq> JNull" by auto
  then have "jgetq (Some data) ''error'' = jget data ''error''" by (cases data) simp_all
  with assms have "includes_grant_code (jget data ''error'')"
    by (simp add: office_isAutoRequestError_iff)
  then have "jget data ''error'' = Some (JStr ''no_grant'')
      \<or> jget data ''error'' = Some (JStr ''grant_expired'')
      \<or> jget data ''error'' = Some (JStr ''single_use_exhausted'')"
    by (simp only: includes_grant_code_iff)
  then show ?thesis
    using nn by (elim disjE) (simp_all add: office_describeAuthError_def jor_def grant_codes_def)
qed

lemma not_grant_flow [simp]:
  "\<not> grant_flow_request (notion_request e method endpoint body s)"
  "\<not> grant_flow_request (office_request e endpoint opts s)"
  "\<not> grant_flow_request (content_request e endpoint s)"
  by (simp_all add: grant_flow_request_def notion_request_def office_request_def
        content_request_def)

lemma attempts_trans:
  "extends w w1 \<Longrightarrow> extends w1 w2 \<Longrightarrow> attempts rq w w2 = attempts rq w w1 + attempts rq w1 w2"
  using extends_trans(2) [of w w1 w2] by (simp add: attempts_def)

lemma attempts_simps:
  "attempts rq w w = 0"
  "attempts rq w (fetched e rq w) = 1"
  "attempts rq w (console_error ls w) = 0"
  "only_grant_traffic (added w w1) \<Longrightarrow> \<not> grant_flow_request rq \<Longrightarrow> attempts rq w w1 = 0"
  by (auto simp: attempts_def added_def fetched_def only_grant_traffic_def count_list_0_iff)

lemma fetched_simps [simp]:
  "files (fetched e rq w) = files w" "fetches (fetched e rq w) = fetches w + 1"
  "trace (fetched e rq w) = trace w @ [Fetch rq]"
  by (simp_all add: fetched_def)

lemma extends_fetched [simp]: "extends w (fetched e rq w)"
  using extendsI [of "fetched e rq w" w "[Fetch rq]"] by simp

lemma extends_console [simp]: "extends w (console_error ls w)"
  using extendsI [of "console_error ls w" w "map Stderr ls"] by simp

lemma fetch_Some:
  "network e (fetches w) rq = Some (r, ms) \<Longrightarrow> fetch e rq w = (Some r, fetched e rq w)"
  by (simp add: fetch_def fetched_def latency_def)

text \<open>notionApi\<close>

lemma notionApi_final:
  assumes "getAgentSession e (files w) = Some s"
    and "network e (fetches w) (notion_request e method endpoint body s) = Some (r, ms)"
    and "rs_status r = 403" "notion_isAutoRequestError (fst (readErrorBody e r))"
    and "attempt \<noteq> 0"
  shows "notionApi e method endpoint body attempt w
           = (Exit 1, console_error (notion_describeAuthError (fst (readErrorBody e r)))
                        (fetched e (notion_request e method endpoint body s) w))"
  using assms notion_isAutoRequestError_truthy [OF assms(4)]
  by (subst notionApi.simps) (simp add: fetch_Some auth_status_def)

lemma notionApi_first:
  assumes "getAgentSession e (files w) = Some s"
    and "network e (fetches w) (notion_request e method endpoint body s) = Some (r, ms)"
    and "rs_status r = 403" "notion_isAutoRequestError (fst (readErrorBody e r))"
    and "AUTO_REQUEST_ENABLED e"
  shows "notionApi e method endpoint body 0 w
           = (case ensureGrant NotionQuery e (fetched e (notion_request e method endpoint body s) w) of
                (Return u, w2) \<Rightarrow> notionApi e method endpoint body 1 w2
              | (Throw x, w2) \<Rightarrow> (Throw x, w2)
              | (Exit n, w2) \<Rightarrow> (Exit n, w2))"
  using assms
  by (subst notionApi.simps)
     (simp add: fetch_Some auth_status_def split: prod.splits outcome.splits)

lemma office_auth_failure_retryable:
  assumes "office_isAutoRequestError (fst (readErrorBody e r))"
  shows "office_auth_failure e r w
           = (Exit 1, console_error
                [[Lit ''No active grant for '', Lit (currentService e), Lit ''.''], [Lit ''''],
                 [Lit ''Request access by running:''],
                 [Lit ''  ./office-cli.js request '', Lit (currentService e)]] w)"
  using office_isAutoRequestError_truthy [OF assms] office_describe_retryable [OF assms]
  by (cases "readErrorBody e r") (simp add: office_auth_failure_def)

lemma apiRequest_final:
  assumes "getAgentSession e (files w) = Some s"
    and "network e (fetches w) (office_request e endpoint opts s) = Some (r, ms)"
    and "rs_status r = 403" "office_isAutoRequestError (fst (readErrorBody e r))"
    and "attempt \<noteq> 0"
  shows "apiRequest e endpoint opts attempt w
           = (Exit 1, console_error
                [[Lit ''No active grant for '', Lit (currentService e), Lit ''.''], [Lit []],
                 [Lit ''Request access by running:''],
                 [Lit ''  ./office-cli.js request '', Lit (currentService e)]]
                (fetched e (office_request e endpoint opts s) w))"
  using assms
  by (subst apiRequest.simps)
     (simp add: fetch_Some auth_status_def office_auth_failure_retryable [OF assms(4)])

lemma apiRequest_first:
  assumes "getAgentSession e (files w) = Some s"
    and "network e (fetches w) (office_request e endpoint opts s) = Some (r, ms)"
    and "rs_status r = 403" "office_isAutoRequestError (fst (readErrorBody e r))"
    and "AUTO_REQUEST_ENABLED e"
  shows "apiRequest e endpoint opts 0 w
           = (case ensureGrant OfficeCli e (fetched e (office_request e endpoint opts s) w) of
                (Return u, w2) \<Rightarrow> apiRequest e endpoint opts 1 w2
              | (Throw x, w2) \<Rightarrow> (Throw x, w2)
              | (Exit n, w2) \<Rightarrow> (Exit n, w2))"
  using assms
  by (subst apiRequest.simps)
     (simp add: fetch_Some auth_status_def split: prod.splits outcome.splits)

lemma fetchGraphContent_final:
  assumes "getAgentSession e (files w) = Some s"
    and "network e (fetches w) (content_request e endpoint s) = Some (r, ms)"
    and "rs_status r = 403" "office_isAutoRequestError (fst (readErrorBody e r))"
    and "attempt \<noteq> 0"
  shows "fetchGraphContent e endpoint attempt w
           = (Exit 1, console_error
                [[Lit ''No active grant for '', Lit (currentService e), Lit ''.''], [Lit []],
                 [Lit ''Request access by running:''],
                 [Lit ''  ./office-cli.js request '', Lit (currentService e)]]
                (fetched e (content_request e endpoint s) w))"
  using assms
  by (subst fetchGraphContent.simps)
     (simp add: fetch_Some auth_status_def office_auth_failure_retryable [OF assms(4)])

lemma fetchGraphContent_first:
  assumes "getAgentSession e (files w) = Some s"
    and "network e (fetches w) (content_request e endpoint s) = Some (r, ms)"
    and "rs_status r = 403" "office_isAutoRequestError (fst (readErrorBody e r))"
    and "AUTO_REQUEST_ENABLED e"
  shows "fetchGraphContent e endpoint 0 w
           = (case ensureGrant OfficeCli e (fetched e (content_request e endpoint s) w) of
                (Return u, w2) \<Rightarrow> fetchGraphContent e endpoint 1 w2
              | (Throw x, w2) \<Rightarrow> (Throw x, w2)
              | (Exit n, w2) \<Rightarrow> (Exit n, w2))"
  using assms
  by (subst fetchGraphContent.simps)
     (simp add: fetch_Some auth_status_def split: prod.splits outcome.splits)

text \<open>
  The common argument: a pipeline whose first attempt hands over to the grant flow and
  whose second attempt ends the process makes two attempts when the grant flow returns
  and one when it does not.
\<close>

lemma retry_once:
  fixes res :: "'a outcome \<times> world" and retry :: "world \<Rightarrow> 'a outcome \<times> world"
  assumes first: "res = (case ensureGrant c e (fetched e rq w) of
                (Return u, w2) \<Rightarrow> retry w2
              | (Throw x, w2) \<Rightarrow> (Throw x, w2)
              | (Exit n, w2) \<Rightarrow> (Exit n, w2))"
    and final: "\<And>w2. files w2 = files w \<Longrightarrow> \<exists>ls. retry w2 = (Exit 1, console_error ls (fetched e rq w2))"
    and rq: "\<not> grant_flow_request rq"
  shows "(case fst (ensureGrant c e (fetched e rq w)) of
            Return u \<Rightarrow> fst res = Exit 1 \<and> attempts rq w (snd res) = 2
          | Throw x \<Rightarrow> fst res = Throw x \<and> attempts rq w (snd res) = 1
          | Exit n \<Rightarrow> fst res = Exit n \<and> attempts rq w (snd res) = 1)"
proof -
  let ?w1 = "fetched e rq w"
  obtain g w2 where g: "ensureGrant c e ?w1 = (g, w2)"
    by (cases "ensureGrant c e ?w1")
  from ensureGrant_trace [of ?w1 c e] g
  have w2: "extends ?w1 w2" "only_grant_traffic (added ?w1 w2)" "files w2 = files w" by simp_all
  have a1: "attempts rq w w2 = 1"
    using attempts_trans [OF extends_fetched w2(1), of rq] attempts_simps(2) [of rq w e]
      attempts_simps(4) [OF w2(2) rq] by simp
  show ?thesis
  proof (cases g)
    case (Return u)
    from final [OF w2(3)] obtain ls where r: "retry w2 = (Exit 1, console_error ls (fetched e rq w2))"
      by blast
    let ?w3 = "fetched e rq w2"
    let ?w4 = "console_error ls ?w3"
    have res: "res = (Exit 1, ?w4)" using first g Return r by simp
    have e2: "extends w w2" using extends_trans(1) [OF extends_fetched w2(1)] .
    have e3: "extends w ?w3" using extends_trans(1) [OF e2 extends_fetched] .
    have "attempts rq w ?w4 = attempts rq w ?w3 + attempts rq ?w3 ?w4"
      by (rule attempts_trans [OF e3 extends_console])
    also have "attempts rq w ?w3 = attempts rq w w2 + attempts rq w2 ?w3"
      by (rule attempts_trans [OF e2 extends_fetched])
    finally have "attempts rq w ?w4 = 2"
      using a1 by (simp add: attempts_simps(2,3))
    with res g Return show ?thesis by simp
  next
    case (Throw x)
    with first a1 g show ?thesis by simp
  next
    case (Exit n)
    with first a1 g show ?thesis by simp
  qed
qed

subsection \<open>A call that does not retry\<close>

lemma pipeline_traffic_single:
  assumes "filter is_io evs = [Fetch rq]"
  shows "pipeline_traffic rq evs"
  unfolding pipeline_traffic_def
proof (intro allI impI)
  fix q assume "Fetch q \<in> set evs"
  then have "Fetch q \<in> set (filter is_io evs)" by simp
  then show "q = rq \<or> grant_flow_request q" unfolding assms by simp
qed

lemma quiet_refl [simp]: "extends w w \<and> filter is_io (added w w) = []"
  by simp

lemma quiet_console [simp]:
  "extends w (console_error ls w) \<and> filter is_io (added w (console_error ls w)) = []"
  using extendsI [of "console_error ls w" w "map Stderr ls"] by simp

lemma notionApi_result_quiet:
  "extends w (snd (notionApi_result e r w))
   \<and> filter is_io (added w (snd (notionApi_result e r w))) = []"
  by (cases "readErrorBody e r") (simp add: notionApi_result_def)

lemma office_auth_failure_quiet:
  "extends w (snd (office_auth_failure e r w :: 'a outcome \<times> world))
   \<and> filter is_io (added w (snd (office_auth_failure e r w :: 'a outcome \<times> world))) = []"
  by (cases "readErrorBody e r"; cases "office_describeAuthError (fst (readErrorBody e r)) (currentService e)";
      cases "fst (office_describeAuthError (fst (readErrorBody e r)) (currentService e))")
     (simp_all add: office_auth_failure_def)

subsection \<open>The shape of the traffic of a call\<close>

lemma pipeline_traffic_simps [simp]:
  "pipeline_traffic rq []"
  "pipeline_traffic rq (xs @ ys) = (pipeline_traffic rq xs \<and> pipeline_traffic rq ys)"
  "pipeline_traffic rq (Fetch q # xs) = ((q = rq \<or> grant_flow_request q) \<and> pipeline_traffic rq xs)"
  by (auto simp: pipeline_traffic_def)

lemma only_grant_pipeline: "only_grant_traffic evs \<Longrightarrow> pipeline_traffic rq evs"
  by (simp add: only_grant_traffic_def pipeline_traffic_def)

text \<open>
  The two ways a pipeline call can go: one request and then only printing, or one
  request, the grant flow, and either nothing more or a second call of the first kind.
\<close>

lemma pipeline_shape:
  assumes "(extends (fetched e rq w) w' \<and> filter is_io (added (fetched e rq w) w') = [])
     \<or> (\<exists>w2. extends (fetched e rq w) w2 \<and> only_grant_traffic (added (fetched e rq w) w2)
              \<and> (w' = w2 \<or> extends w2 w' \<and> filter is_io (added w2 w') = [Fetch rq]))"
  shows "extends w w'" and "pipeline_traffic rq (added w w')" and "hd (added w w') = Fetch rq"
proof -
  let ?w1 = "fetched e rq w"
  have w1: "extends w ?w1" "added w ?w1 = [Fetch rq]"
    using extendsI [of ?w1 w "[Fetch rq]"] by simp_all
  from assms have "extends w w' \<and> pipeline_traffic rq (added w w') \<and> hd (added w w') = Fetch rq"
  proof (elim disjE exE conjE)
    assume a: "extends ?w1 w'" "filter is_io (added ?w1 w') = []"
    from a(2) have "pipeline_traffic rq (added ?w1 w')"
      unfolding pipeline_traffic_def by (metis Fetch_in_filter_io empty_iff empty_set)
    with extends_trans [OF w1(1) a(1)] w1(2) show ?thesis by simp
  next
    fix w2
    assume a: "extends ?w1 w2" "only_grant_traffic (added ?w1 w2)" "w' = w2"
    with extends_trans [OF w1(1) a(1)] w1(2) only_grant_pipeline [OF a(2), of rq]
    show ?thesis by simp
  next
    fix w2
    assume a: "extends ?w1 w2" "only_grant_traffic (added ?w1 w2)"
      "extends w2 w'" "filter is_io (added w2 w') = [Fetch rq]"
    note e2 = extends_trans [OF w1(1) a(1)]
    note e3 = extends_trans [OF e2(1) a(3)]
    from e2 e3 w1(2) only_grant_pipeline [OF a(2), of rq] pipeline_traffic_single [OF a(4)]
    show ?thesis by simp
  qed
  then show "extends w w'" and "pipeline_traffic rq (added w w')" and "hd (added w w') = Fetch rq"
    by simp_all
qed

lemma fetch_cases:
  obtains (failed) "fetch e rq w = (None, fetched e rq w)"
  | (answered) r ms where "network e (fetches w) rq = Some (r, ms)"
      "fetch e rq w = (Some r, fetched e rq w)"
proof (cases "network e (fetches w) rq")
  case None
  then have "fetch e rq w = (None, fetched e rq w)"
    by (simp add: fetch_def fetched_def latency_def)
  then show thesis by (rule failed)
next
  case (Some p)
  obtain r ms where "p = (r, ms)" by (cases p)
  with Some fetch_Some [of e w rq r ms] show thesis by (auto intro: answered)
qed

lemma notionApi_quiet:
  assumes "getAgentSession e (files w) = Some s"
    and "attempt \<noteq> 0 \<or> \<not> AUTO_REQUEST_ENABLED e
         \<or> (\<forall>r. fst (fetch e (notion_request e method endpoint body s) w) = Some r \<longrightarrow>
                \<not> auth_status r \<or> \<not> notion_isAutoRequestError (fst (readErrorBody e r)))"
  shows "extends (fetched e (notion_request e method endpoint body s) w)
           (snd (notionApi e method endpoint body attempt w))
       \<and> filter is_io (added (fetched e (notion_request e method endpoint body s) w)
           (snd (notionApi e method endpoint body attempt w))) = []"
proof -
  let ?rq = "notion_request e method endpoint body s"
  show ?thesis
  proof (cases e ?rq w rule: fetch_cases)
    case failed
    then show ?thesis
      unfolding notionApi.simps [of e "method" endpoint body attempt w]
      using assms(1) by simp
  next
    case (answered r ms)
    with assms(2) have nr: "\<not> (attempt = 0 \<and> AUTO_REQUEST_ENABLED e
        \<and> auth_status r \<and> notion_isAutoRequestError (fst (readErrorBody e r)))"
      by auto
    show ?thesis
    proof (cases "auth_status r")
      case True
      with nr answered show ?thesis
        unfolding notionApi.simps [of e "method" endpoint body attempt w]
        using assms(1) by auto
    next
      case False
      with answered show ?thesis
        unfolding notionApi.simps [of e "method" endpoint body attempt w]
        using assms(1) notionApi_result_quiet [of "fetched e ?rq w" e r] by simp
    qed
  qed
qed

lemma apiRequest_quiet:
  assumes "getAgentSession e (files w) = Some s"
    and "attempt \<noteq> 0 \<or> \<not> AUTO_REQUEST_ENABLED e
         \<or> (\<forall>r. fst (fetch e (office_request e endpoint opts s) w) = Some r \<longrightarrow>
                \<not> auth_status r \<or> \<not> office_isAutoRequestError (fst (readErrorBody e r)))"
  shows "extends (fetched e (office_request e endpoint opts s) w)
           (snd (apiRequest e endpoint opts attempt w))
       \<and> filter is_io (added (fetched e (office_request e endpoint opts s) w)
           (snd (apiRequest e endpoint opts attempt w))) = []"
proof -
  let ?rq = "office_request e endpoint opts s"
  show ?thesis
  proof (cases e ?rq w rule: fetch_cases)
    case failed
    then show ?thesis
      unfolding apiRequest.simps [of e endpoint opts attempt w]
      using assms(1) by simp
  next
    case (answered r ms)
    with assms(2) have nr: "\<not> (attempt = 0 \<and> AUTO_REQUEST_ENABLED e
        \<and> auth_status r \<and> office_isAutoRequestError (fst (readErrorBody e r)))"
      by auto
    show ?thesis
    proof (cases "auth_status r")
      case True
      with nr answered show ?thesis
        unfolding apiRequest.simps [of e endpoint opts attempt w]
        using assms(1) office_auth_failure_quiet [of "fetched e ?rq w" e r] by auto
    next
      case False
      with answered show ?thesis
        unfolding apiRequest.simps [of e endpoint opts attempt w]
        using assms(1) by (simp split: prod.splits option.splits)
    qed
  qed
qed

lemma fetchGraphContent_quiet:
  assumes "getAgentSession e (files w) = Some s"
    and "attempt \<noteq> 0 \<or> \<not> AUTO_REQUEST_ENABLED e
         \<or> (\<forall>r. fst (fetch e (content_request e endpoint s) w) = Some r \<longrightarrow>
                \<not> auth_status r \<or> \<not> office_isAutoRequestError (fst (readErrorBody e r)))"
  shows "extends (fetched e (content_request e endpoint s) w)
           (snd (fetchGraphContent e endpoint attempt w))
       \<and> filter is_io (added (fetched e (content_request e endpoint s) w)
           (snd (fetchGraphContent e endpoint attempt w))) = []"
proof -
  let ?rq = "content_request e endpoint s"
  show ?thesis
  proof (cases e ?rq w rule: fetch_cases)
    case failed
    then show ?thesis
      unfolding fetchGraphContent.simps [of e endpoint attempt w]
      using assms(1) by simp
  next
    case (answered r ms)
    with assms(2) have nr: "\<not> (attempt = 0 \<and> AUTO_REQUEST_ENABLED e
        \<and> auth_status r \<and> office_isAutoRequestError (fst (readErrorBody e r)))"
      by auto
    show ?thesis
    proof (cases "auth_status r")
      case True
      with nr answered show ?thesis
        unfolding fetchGraphContent.simps [of e endpoint attempt w]
        using assms(1) office_auth_failure_quiet [of "fetched e ?rq w" e r] by auto
    next
      case False
      with answered show ?thesis
        unfolding fetchGraphContent.simps [of e endpoint attempt w]
        using assms(1) by simp
    qed
  qed
qed

text \<open>A call makes its own request once or twice.\<close>

lemma count_list_filter_io:
  "count_list (filter is_io evs) (Fetch q) = count_list evs (Fetch q)"
  by (induction evs) auto

lemma pipeline_attempts:
  assumes "(extends (fetched e rq w) w' \<and> filter is_io (added (fetched e rq w) w') = [])
     \<or> (\<exists>w2. extends (fetched e rq w) w2 \<and> only_grant_traffic (added (fetched e rq w) w2)
              \<and> (w' = w2 \<or> extends w2 w' \<and> filter is_io (added w2 w') = [Fetch rq]))"
    and rq: "\<not> grant_flow_request rq"
  shows "1 \<le> attempts rq w w' \<and> attempts rq w w' \<le> 2"
proof -
  let ?w1 = "fetched e rq w"
  have io: "attempts rq a b = count_list (filter is_io (added a b)) (Fetch rq)" for a b
    by (simp add: attempts_def count_list_filter_io)
  have w1: "extends w ?w1" "attempts rq w ?w1 = 1"
    by (simp_all add: attempts_simps(2))
  from assms(1) show ?thesis
  proof (elim disjE exE conjE)
    assume a: "extends ?w1 w'" "filter is_io (added ?w1 w') = []"
    from a(2) have "attempts rq ?w1 w' = 0" by (simp add: io)
    with attempts_trans [OF w1(1) a(1), of rq] w1(2) show ?thesis by simp
  next
    fix w2
    assume a: "extends ?w1 w2" "only_grant_traffic (added ?w1 w2)" "w' = w2"
    from attempts_simps(4) [OF a(2) rq] attempts_trans [OF w1(1) a(1), of rq] w1(2) a(3)
    show ?thesis by simp
  next
    fix w2
    assume a: "extends ?w1 w2" "only_grant_traffic (added ?w1 w2)"
      "extends w2 w'" "filter is_io (added w2 w') = [Fetch rq]"
    have e2: "extends w w2" using extends_trans(1) [OF w1(1) a(1)] .
    from a(4) have "attempts rq w2 w' = 1" by (simp add: io)
    with attempts_simps(4) [OF a(2) rq] attempts_trans [OF w1(1) a(1), of rq] w1(2)
      attempts_trans [OF e2 a(3), of rq]
    show ?thesis by simp
  qed
qed

lemma notionApi_shape:
  assumes sess: "getAgentSession e (files w) = Some s"
  shows "(extends (fetched e (notion_request e method endpoint body s) w) (snd (notionApi e method endpoint body attempt w)) \<and> filter is_io (added (fetched e (notion_request e method endpoint body s) w) (snd (notionApi e method endpoint body attempt w))) = [])
     \<or> (\<exists>w2. extends (fetched e (notion_request e method endpoint body s) w) w2 \<and> only_grant_traffic (added (fetched e (notion_request e method endpoint body s) w) w2)
              \<and> ((snd (notionApi e method endpoint body attempt w)) = w2 \<or> extends w2 (snd (notionApi e method endpoint body attempt w)) \<and> filter is_io (added w2 (snd (notionApi e method endpoint body attempt w))) = [Fetch (notion_request e method endpoint body s)]))"
proof -
  let ?rq = "notion_request e method endpoint body s"
  let ?w1 = "fetched e ?rq w"
  let ?w' = "snd (notionApi e method endpoint body attempt w)"
  show ?thesis
  proof (cases "attempt \<noteq> 0 \<or> \<not> AUTO_REQUEST_ENABLED e
         \<or> (\<forall>r. fst (fetch e ?rq w) = Some r \<longrightarrow>
                \<not> auth_status r \<or> \<not> notion_isAutoRequestError (fst (readErrorBody e r)))")
    case True
    from notionApi_quiet [OF sess True] show ?thesis by blast
  next
    case False
    then obtain r where r: "attempt = 0" "AUTO_REQUEST_ENABLED e" "fst (fetch e ?rq w) = Some r"
      "auth_status r" "notion_isAutoRequestError (fst (readErrorBody e r))"
      by auto
    from r(3) have f: "fetch e ?rq w = (Some r, ?w1)"
      using snd_fetch [of e ?rq w] by (cases "fetch e ?rq w") simp
    obtain g w2 where g: "ensureGrant NotionQuery e ?w1 = (g, w2)"
      by (cases "ensureGrant NotionQuery e ?w1")
    from ensureGrant_trace [of ?w1 NotionQuery e] g
    have w2: "extends ?w1 w2" "only_grant_traffic (added ?w1 w2)" "files w2 = files w" by simp_all
    have first: "notionApi e method endpoint body attempt w
           = (case g of Return u \<Rightarrow> notionApi e method endpoint body 1 w2
              | Throw x \<Rightarrow> (Throw x, w2) | Exit n \<Rightarrow> (Exit n, w2))"
      unfolding notionApi.simps [of e "method" endpoint body attempt w]
      using sess f r g by (simp split: outcome.splits)
    have "?w' = w2 \<or> extends w2 ?w' \<and> filter is_io (added w2 ?w') = [Fetch ?rq]"
    proof (cases g)
      case (Return u)
      from sess w2(3) have sess2: "getAgentSession e (files w2) = Some s" by simp
      have q: "extends (fetched e ?rq w2) (snd (notionApi e method endpoint body 1 w2))
         \<and> filter is_io (added (fetched e ?rq w2) (snd (notionApi e method endpoint body 1 w2))) = []"
        by (rule notionApi_quiet [OF sess2]) simp
      have w3: "extends w2 (fetched e ?rq w2)" "added w2 (fetched e ?rq w2) = [Fetch ?rq]"
        using extendsI [of "fetched e ?rq w2" w2 "[Fetch ?rq]"] by simp_all
      from q w3 extends_trans [OF w3(1), of "snd (notionApi e method endpoint body 1 w2)"]
      show ?thesis unfolding first Return by simp
    next
      case (Throw x)
      then show ?thesis unfolding first by simp
    next
      case (Exit n)
      then show ?thesis unfolding first by simp
    qed
    with w2 show ?thesis by blast
  qed
qed

lemma notionApi_traffic:
  assumes sess: "getAgentSession e (files w) = Some s"
  shows "extends w (snd (notionApi e method endpoint body attempt w))"
    and "pipeline_traffic (notion_request e method endpoint body s)
           (added w (snd (notionApi e method endpoint body attempt w)))"
    and "hd (added w (snd (notionApi e method endpoint body attempt w)))
           = Fetch (notion_request e method endpoint body s)"
  using pipeline_shape [OF notionApi_shape [OF sess]] by simp_all

lemma notionApi_attempts:
  assumes sess: "getAgentSession e (files w) = Some s"
  shows "1 \<le> attempts (notion_request e method endpoint body s) w (snd (notionApi e method endpoint body attempt w))
       \<and> attempts (notion_request e method endpoint body s) w (snd (notionApi e method endpoint body attempt w)) \<le> 2"
  by (rule pipeline_attempts [OF notionApi_shape [OF sess] not_grant_flow(1)])

lemma apiRequest_shape:
  assumes sess: "getAgentSession e (files w) = Some s"
  shows "(extends (fetched e (office_request e endpoint opts s) w) (snd (apiRequest e endpoint opts attempt w)) \<and> filter is_io (added (fetched e (office_request e endpoint opts s) w) (snd (apiRequest e endpoint opts attempt w))) = [])
     \<or> (\<exists>w2. extends (fetched e (office_request e endpoint opts s) w) w2 \<and> only_grant_traffic (added (fetched e (office_request e endpoint opts s) w) w2)
              \<and> ((snd (apiRequest e endpoint opts attempt w)) = w2 \<or> extends w2 (snd (apiRequest e endpoint opts attempt w)) \<and> filter is_io (added w2 (snd (apiRequest e endpoint opts attempt w))) = [Fetch (office_request e endpoint opts s)]))"
proof -
  let ?rq = "office_request e endpoint opts s"
  let ?w1 = "fetched e ?rq w"
  let ?w' = "snd (apiRequest e endpoint opts attempt w)"
  show ?thesis
  proof (cases "attempt \<noteq> 0 \<or> \<not> AUTO_REQUEST_ENABLED e
         \<or> (\<forall>r. fst (fetch e ?rq w) = Some r \<longrightarrow>
                \<not> auth_status r \<or> \<not> office_isAutoRequestError (fst (readErrorBody e r)))")
    case True
    from apiRequest_quiet [OF sess True] show ?thesis by blast
  next
    case False
    then obtain r where r: "attempt = 0" "AUTO_REQUEST_ENABLED e" "fst (fetch e ?rq w) = Some r"
      "auth_status r" "office_isAutoRequestError (fst (readErrorBody e r))"
      by auto
    from r(3) have f: "fetch e ?rq w = (Some r, ?w1)"
      using snd_fetch [of e ?rq w] by (cases "fetch e ?rq w") simp
    obtain g w2 where g: "ensureGrant OfficeCli e ?w1 = (g, w2)"
      by (cases "ensureGrant OfficeCli e ?w1")
    from ensureGrant_trace [of ?w1 OfficeCli e] g
    have w2: "extends ?w1 w2" "only_grant_traffic (added ?w1 w2)" "files w2 = files w" by simp_all
    have first: "apiRequest e endpoint opts attempt w
           = (case g of Return u \<Rightarrow> apiRequest e endpoint opts 1 w2
              | Throw x \<Rightarrow> (Throw x, w2) | Exit n \<Rightarrow> (Exit n, w2))"
      unfolding apiRequest.simps [of e endpoint opts attempt w]
      using sess f r g by (simp split: outcome.splits)
    have "?w' = w2 \<or> extends w2 ?w' \<and> filter is_io (added w2 ?w') = [Fetch ?rq]"
    proof (cases g)
      case (Return u)
      from sess w2(3) have sess2: "getAgentSession e (files w2) = Some s" by simp
      have q: "extends (fetched e ?rq w2) (snd (apiRequest e endpoint opts 1 w2))
         \<and> filter is_io (added (fetched e ?rq w2) (snd (apiRequest e endpoint opts 1 w2))) = []"
        by (rule apiRequest_quiet [OF sess2]) simp
      have w3: "extends w2 (fetched e ?rq w2)" "added w2 (fetched e ?rq w2) = [Fetch ?rq]"
        using extendsI [of "fetched e ?rq w2" w2 "[Fetch ?rq]"] by simp_all
      from q w3 extends_trans [OF w3(1), of "snd (apiRequest e endpoint opts 1 w2)"]
      show ?thesis unfolding first Return by simp
    next
      case (Throw x)
      then show ?thesis unfolding first by simp
    next
      case (Exit n)
      then show ?thesis unfolding first by simp
    qed
    with w2 show ?thesis by blast
  qed
qed

lemma apiRequest_traffic:
  assumes sess: "getAgentSession e (files w) = Some s"
  shows "extends w (snd (apiRequest e endpoint opts attempt w))"
    and "pipeline_traffic (office_request e endpoint opts s)
           (added w (snd (apiRequest e endpoint opts attempt w)))"
    and "hd (added w (snd (apiRequest e endpoint opts attempt w)))
           = Fetch (office_request e endpoint opts s)"
  using pipeline_shape [OF apiRequest_shape [OF sess]] by simp_all

lemma apiRequest_attempts:
  assumes sess: "getAgentSession e (files w) = Some s"
  shows "1 \<le> attempts (office_request e endpoint opts s) w (snd (apiRequest e endpoint opts attempt w))
       \<and> attempts (office_request e endpoint opts s) w (snd (apiRequest e endpoint opts attempt w)) \<le> 2"
  by (rule pipeline_attempts [OF apiRequest_shape [OF sess] not_grant_flow(2)])

lemma fetchGraphContent_shape:
  assumes sess: "getAgentSession e (files w) = Some s"
  shows "(extends (fetched e (content_request e endpoint s) w) (snd (fetchGraphContent e endpoint attempt w)) \<and> filter is_io (added (fetched e (content_request e endpoint s) w) (snd (fetchGraphContent e endpoint attempt w))) = [])
     \<or> (\<exists>w2. extends (fetched e (content_request e endpoint s) w) w2 \<and> only_grant_traffic (added (fetched e (content_request e endpoint s) w) w2)
              \<and> ((snd (fetchGraphContent e endpoint attempt w)) = w2 \<or> extends w2 (snd (fetchGraphContent e endpoint attempt w)) \<and> filter is_io (added w2 (snd (fetchGraphContent e endpoint attempt w))) = [Fetch (content_request e endpoint s)]))"
proof -
  let ?rq = "content_request e endpoint s"
  let ?w1 = "fetched e ?rq w"
  let ?w' = "snd (fetchGraphContent e endpoint attempt w)"
  show ?thesis
  proof (cases "attempt \<noteq> 0 \<or> \<not> AUTO_REQUEST_ENABLED e
         \<or> (\<forall>r. fst (fetch e ?rq w) = Some r \<longrightarrow>
                \<not> auth_status r \<or> \<not> office_isAutoRequestError (fst (readErrorBody e r)))")
    case True
    from fetchGraphContent_quiet [OF sess True] show ?thesis by blast
  next
    case False
    then obtain r where r: "attempt = 0" "AUTO_REQUEST_ENABLED e" "fst (fetch e ?rq w) = Some r"
      "auth_status r" "office_isAutoRequestError (fst (readErrorBody e r))"
      by auto
    from r(3) have f: "fetch e ?rq w = (Some r, ?w1)"
      using snd_fetch [of e ?rq w] by (cases "fetch e ?rq w") simp
    obtain g w2 where g: "ensureGrant OfficeCli e ?w1 = (g, w2)"
      by (cases "ensureGrant OfficeCli e ?w1")
    from ensureGrant_trace [of ?w1 OfficeCli e] g
    have w2: "extends ?w1 w2" "only_grant_traffic (added ?w1 w2)" "files w2 = files w" by simp_all
    have first: "fetchGraphContent e endpoint attempt w
           = (case g of Return u \<Rightarrow> fetchGraphContent e endpoint 1 w2
              | Throw x \<Rightarrow> (Throw x, w2) | Exit n \<Rightarrow> (Exit n, w2))"
      unfolding fetchGraphContent.simps [of e endpoint attempt w]
      using sess f r g by (simp split: outcome.splits)
    have "?w' = w2 \<or> extends w2 ?w' \<and> filter is_io (added w2 ?w') = [Fetch ?rq]"
    proof (cases g)
      case (Return u)
      from sess w2(3) have sess2: "getAgentSession e (files w2) = Some s" by simp
      have q: "extends (fetched e ?rq w2) (snd (fetchGraphContent e endpoint 1 w2))
         \<and> filter is_io (added (fetched e ?rq w2) (snd (fetchGraphContent e endpoint 1 w2))) = []"
        by (rule fetchGraphContent_quiet [OF sess2]) simp
      have w3: "extends w2 (fetched e ?rq w2)" "added w2 (fetched e ?rq w2) = [Fetch ?rq]"
        using extendsI [of "fetched e ?rq w2" w2 "[Fetch ?rq]"] by simp_all
      from q w3 extends_trans [OF w3(1), of "snd (fetchGraphContent e endpoint 1 w2)"]
      show ?thesis unfolding first Return by simp
    next
      case (Throw x)
      then show ?thesis unfolding first by simp
    next
      case (Exit n)
      then show ?thesis unfolding first by simp
    qed
    with w2 show ?thesis by blast
  qed
qed

lemma fetchGraphContent_traffic:
  assumes sess: "getAgentSession e (files w) = Some s"
  shows "extends w (snd (fetchGraphContent e endpoint attempt w))"
    and "pipeline_traffic (content_request e endpoint s)
           (added w (snd (fetchGraphContent e endpoint attempt w)))"
    and "hd (added w (snd (fetchGraphContent e endpoint attempt w)))
           = Fetch (content_request e endpoint s)"
  using pipeline_shape [OF fetchGraphContent_shape [OF sess]] by simp_all

lemma fetchGraphContent_attempts:
  assumes sess: "getAgentSession e (files w) = Some s"
  shows "1 \<le> attempts (content_request e endpoint s) w (snd (fetchGraphContent e endpoint attempt w))
       \<and> attempts (content_request e endpoint s) w (snd (fetchGraphContent e endpoint attempt w)) \<le> 2"
  by (rule pipeline_attempts [OF fetchGraphContent_shape [OF sess] not_grant_flow(3)])

subsection \<open>A downstream that always refuses\<close>

lemma example_env_sel [simp]:
  "AUTH_SERVICE_URL (example_env net) = ''https://auth.freshhub.ai''"
  "AUTO_REQUEST_ENABLED (example_env net)"
  "NOTION_VERSION (example_env net) = ''2022-06-28''"
  "currentService (example_env net) = ''drive''"
  "JSON_parse (example_env net) = example_parse"
  "Date_getTime (example_env net) = example_getTime"
  "network (example_env net) = net"
  by (simp_all add: example_env_def)

lemma logged_in_world_sel [simp]:
  "clock logged_in_world = 0" "fetches logged_in_world = 0" "trace logged_in_world = []"
  by (simp_all add: logged_in_world_def)

lemma search_request_eq:
  "notion_request (example_env net) ''POST'' ''/v1/search'' (Some (JObj [])) ''sess-abc''
     = search_request"
  by (simp add: notion_request_def search_request_def)

lemma parse_no_grant:
  \<open>example_parse ''{"error":"no_grant"}'' = Some (JObj [(''error'', JStr ''no_grant'')])\<close>
  by (simp add: example_parse_def)

lemma parse_autoApproved:
  \<open>example_parse ''{"autoApproved":true}'' = Some (JObj [(''autoApproved'', JBool True)])\<close>
  by (simp add: example_parse_def)

lemma parse_pending_request:
  \<open>example_parse
      ''{"pollUrl":"https://auth.freshhub.ai/api/auth-request/r1","approveUrl":"https://auth.freshhub.ai/approve/r1"}''
     = Some (JObj [(''pollUrl'', JStr ''https://auth.freshhub.ai/api/auth-request/r1''),
                   (''approveUrl'', JStr ''https://auth.freshhub.ai/approve/r1'')])\<close>
  by (simp add: example_parse_def)

lemma parse_denied:
  \<open>example_parse ''{"status":"denied"}'' = Some (JObj [(''status'', JStr ''denied'')])\<close>
  by (simp add: example_parse_def)

lemma broker_search:
  \<open>broker ga pa i search_request = Some (answer 403 ''{"error":"no_grant"}'', 100)\<close>
  by (simp add: broker_def search_request_def example_pollUrl_def)

lemma broker_grant:
  "broker ga pa i (grant_request c (example_env net) s) = Some (answer 200 ga, 100)"
  by (simp add: broker_def grant_request_def)

lemma broker_poll:
  "broker ga pa i (poll_request example_pollUrl s) = Some (answer 200 pa, 100)"
  by (simp add: broker_def poll_request_def)

lemma retryable_no_grant:
  "notion_isAutoRequestError (JObj [(''error'', JStr ''no_grant'')])"
  "office_isAutoRequestError (JObj [(''error'', JStr ''no_grant'')])"
  by (simp_all add: notion_isAutoRequestError_def office_isAutoRequestError_def
        normalizeAuthError_def jor_def spread_def grant_codes_def)

lemma answer_sel [simp]:
  "rs_status (answer st txt) = st" "rs_text (answer st txt) = txt"
  "rs_location (answer st txt) = None" "rs_statusText (answer st txt) = []"
  by (simp_all add: answer_def)

lemma readErrorBody_no_grant:
  \<open>fst (readErrorBody (example_env net) (answer 403 ''{"error":"no_grant"}''))
     = JObj [(''error'', JStr ''no_grant'')]\<close>
  by (simp add: readErrorBody_def parse_no_grant)

lemma broker_always_403:
  "always_403 (example_env (broker ga pa)) search_request notion_isAutoRequestError"
  by (simp add: always_403_def broker_search readErrorBody_no_grant retryable_no_grant)

lemma requestGrant_example:
  assumes "files w = files logged_in_world" "example_parse ga = Some j"
  shows "requestGrant c (example_env (broker ga pa)) w
           = (Return j, fetched (example_env (broker ga pa))
                          (grant_request c (example_env (broker ga pa)) ''sess-abc'') w)"
proof -
  let ?e = "example_env (broker ga pa)"
  have "network ?e (fetches w) (grant_request c ?e ''sess-abc'') = Some (answer 200 ga, 100)"
    by (simp add: broker_grant)
  from fetch_Some [OF this] assms show ?thesis
    by (simp add: requestGrant_def logged_in_session ok_def)
qed

lemma notionApi_retry_bound:
  assumes "getAgentSession e (files w) = Some s" and "AUTO_REQUEST_ENABLED e"
    and d: "always_403 e (notion_request e method endpoint body s) notion_isAutoRequestError"
  shows "(case fst (ensureGrant NotionQuery e (fetched e (notion_request e method endpoint body s) w)) of
           Return u \<Rightarrow>
             fst (notionApi e method endpoint body 0 w) = Exit 1
             \<and> attempts (notion_request e method endpoint body s) w (snd (notionApi e method endpoint body 0 w)) = 2
         | Throw x \<Rightarrow>
             fst (notionApi e method endpoint body 0 w) = Throw x
             \<and> attempts (notion_request e method endpoint body s) w (snd (notionApi e method endpoint body 0 w)) = 1
         | Exit n \<Rightarrow>
             fst (notionApi e method endpoint body 0 w) = Exit n
             \<and> attempts (notion_request e method endpoint body s) w (snd (notionApi e method endpoint body 0 w)) = 1)"
proof -
  let ?rq = "notion_request e method endpoint body s"
  from d obtain r ms where r: "network e (fetches w) ?rq = Some (r, ms)" "rs_status r = 403"
    "notion_isAutoRequestError (fst (readErrorBody e r))"
    unfolding always_403_def by blast
  have final: "\<exists>ls. notionApi e method endpoint body 1 w2 = (Exit 1, console_error ls (fetched e ?rq w2))"
    if "files w2 = files w" for w2
  proof -
    from d obtain r' ms' where r': "network e (fetches w2) ?rq = Some (r', ms')" "rs_status r' = 403"
      "notion_isAutoRequestError (fst (readErrorBody e r'))"
      unfolding always_403_def by blast
    from assms(1) that have "getAgentSession e (files w2) = Some s" by simp
    from notionApi_final [OF this r', of 1] show ?thesis by blast
  qed
  show ?thesis
    by (rule retry_once [OF notionApi_first [OF assms(1) r assms(2)] final not_grant_flow(1)])
qed

lemma apiRequest_retry_bound:
  assumes "getAgentSession e (files w) = Some s" and "AUTO_REQUEST_ENABLED e"
    and d: "always_403 e (office_request e endpoint opts s) office_isAutoRequestError"
  shows "(case fst (ensureGrant OfficeCli e (fetched e (office_request e endpoint opts s) w)) of
           Return u \<Rightarrow>
             fst (apiRequest e endpoint opts 0 w) = Exit 1
             \<and> attempts (office_request e endpoint opts s) w (snd (apiRequest e endpoint opts 0 w)) = 2
         | Throw x \<Rightarrow>
             fst (apiRequest e endpoint opts 0 w) = Throw x
             \<and> attempts (office_request e endpoint opts s) w (snd (apiRequest e endpoint opts 0 w)) = 1
         | Exit n \<Rightarrow>
             fst (apiRequest e endpoint opts 0 w) = Exit n
             \<and> attempts (office_request e endpoint opts s) w (snd (apiRequest e endpoint opts 0 w)) = 1)"
proof -
  let ?rq = "office_request e endpoint opts s"
  from d obtain r ms where r: "network e (fetches w) ?rq = Some (r, ms)" "rs_status r = 403"
    "office_isAutoRequestError (fst (readErrorBody e r))"
    unfolding always_403_def by blast
  have final: "\<exists>ls. apiRequest e endpoint opts 1 w2 = (Exit 1, console_error ls (fetched e ?rq w2))"
    if "files w2 = files w" for w2
  proof -
    from d obtain r' ms' where r': "network e (fetches w2) ?rq = Some (r', ms')" "rs_status r' = 403"
      "office_isAutoRequestError (fst (readErrorBody e r'))"
      unfolding always_403_def by blast
    from assms(1) that have "getAgentSession e (files w2) = Some s" by simp
    from apiRequest_final [OF this r', of 1] show ?thesis by blast
  qed
  show ?thesis
    by (rule retry_once [OF apiRequest_first [OF assms(1) r assms(2)] final not_grant_flow(2)])
qed

lemma fetchGraphContent_retry_bound:
  assumes "getAgentSession e (files w) = Some s" and "AUTO_REQUEST_ENABLED e"
    and d: "always_403 e (content_request e endpoint s) office_isAutoRequestError"
  shows "(case fst (ensureGrant OfficeCli e (fetched e (content_request e endpoint s) w)) of
           Return u \<Rightarrow>
             fst (fetchGraphContent e endpoint 0 w) = Exit 1
             \<and> attempts (content_request e endpoint s) w (snd (fetchGraphContent e endpoint 0 w)) = 2
         | Throw x \<Rightarrow>
             fst (fetchGraphContent e endpoint 0 w) = Throw x
             \<and> attempts (content_request e endpoint s) w (snd (fetchGraphContent e endpoint 0 w)) = 1
         | Exit n \<Rightarrow>
             fst (fetchGraphContent e endpoint 0 w) = Exit n
             \<and> attempts (content_request e endpoint s) w (snd (fetchGraphContent e endpoint 0 w)) = 1)"
proof -
  let ?rq = "content_request e endpoint s"
  from d obtain r ms where r: "network e (fetches w) ?rq = Some (r, ms)" "rs_status r = 403"
    "office_isAutoRequestError (fst (readErrorBody e r))"
    unfolding always_403_def by blast
  have final: "\<exists>ls. fetchGraphContent e endpoint 1 w2 = (Exit 1, console_error ls (fetched e ?rq w2))"
    if "files w2 = files w" for w2
  proof -
    from d obtain r' ms' where r': "network e (fetches w2) ?rq = Some (r', ms')" "rs_status r' = 403"
      "office_isAutoRequestError (fst (readErrorBody e r'))"
      unfolding always_403_def by blast
    from assms(1) that have "getAgentSession e (files w2) = Some s" by simp
    from fetchGraphContent_final [OF this r', of 1] show ?thesis by blast
  qed
  show ?thesis
    by (rule retry_once [OF fetchGraphContent_first [OF assms(1) r assms(2)] final not_grant_flow(3)])
qed

text \<open>
  Claim C1. A session is loaded, automatic grant requests are enabled, and the downstream
  answers the request of the call with 403 and a retryable error whenever it is made.
  Then a call of \<^verbatim>\<open>notionApi\<close>, \<^verbatim>\<open>apiRequest\<close> or \<^verbatim>\<open>fetchGraphContent\<close> (with \<open>attempt = 0\<close>)
  makes its request once and runs \<^verbatim>\<open>ensureGrant\<close>. When \<^verbatim>\<open>ensureGrant\<close> returns, the
  request is made a second time and the call ends the process with exit code 1: two
  attempts in all. When \<^verbatim>\<open>ensureGrant\<close> throws or exits, the call ends in the same way
  after the one attempt. Whatever the service answers, and whatever the value of
  \<open>attempt\<close>, a call makes its request at most twice. All three functions are total, so
  the call terminates.
\<close>

theorem C1_retry_bound:
  assumes "getAgentSession e (files w) = Some s" and "AUTO_REQUEST_ENABLED e"
  shows
    "(always_403 e (notion_request e method endpoint body s) notion_isAutoRequestError \<longrightarrow>
        (case fst (ensureGrant NotionQuery e (fetched e (notion_request e method endpoint body s) w)) of
           Return u \<Rightarrow>
             fst (notionApi e method endpoint body 0 w) = Exit 1
             \<and> attempts (notion_request e method endpoint body s) w (snd (notionApi e method endpoint body 0 w)) = 2
         | Throw x \<Rightarrow>
             fst (notionApi e method endpoint body 0 w) = Throw x
             \<and> attempts (notion_request e method endpoint body s) w (snd (notionApi e method endpoint body 0 w)) = 1
         | Exit n \<Rightarrow>
             fst (notionApi e method endpoint body 0 w) = Exit n
             \<and> attempts (notion_request e method endpoint body s) w (snd (notionApi e method endpoint body 0 w)) = 1))
   \<and> (always_403 e (office_request e endpoint opts s) office_isAutoRequestError \<longrightarrow>
        (case fst (ensureGrant OfficeCli e (fetched e (office_request e endpoint opts s) w)) of
           Return u \<Rightarrow>
             fst (apiRequest e endpoint opts 0 w) = Exit 1
             \<and> attempts (office_request e endpoint opts s) w (snd (apiRequest e endpoint opts 0 w)) = 2
         | Throw x \<Rightarrow>
             fst (apiRequest e endpoint opts 0 w) = Throw x
             \<and> attempts (office_request e endpoint opts s) w (snd (apiRequest e endpoint opts 0 w)) = 1
         | Exit n \<Rightarrow>
             fst (apiRequest e endpoint opts 0 w) = Exit n
             \<and> attempts (office_request e endpoint opts s) w (snd (apiRequest e endpoint opts 0 w)) = 1))
   \<and> (always_403 e (content_request e endpoint s) office_isAutoRequestError \<longrightarrow>
        (case fst (ensureGrant OfficeCli e (fetched e (content_request e endpoint s) w)) of
           Return u \<Rightarrow>
             fst (fetchGraphContent e endpoint 0 w) = Exit 1
             \<and> attempts (content_request e endpoint s) w (snd (fetchGraphContent e endpoint 0 w)) = 2
         | Throw x \<Rightarrow>
             fst (fetchGraphContent e endpoint 0 w) = Throw x
             \<and> attempts (content_request e endpoint s) w (snd (fetchGraphContent e endpoint 0 w)) = 1
         | Exit n \<Rightarrow>
             fst (fetchGraphContent e endpoint 0 w) = Exit n
             \<and> attempts (content_request e endpoint s) w (snd (fetchGraphContent e endpoint 0 w)) = 1))
   \<and> attempts (notion_request e method endpoint body s) w
       (snd (notionApi e method endpoint body attempt w)) \<le> 2
   \<and> attempts (office_request e endpoint opts s) w
       (snd (apiRequest e endpoint opts attempt w)) \<le> 2
   \<and> attempts (content_request e endpoint s) w
       (snd (fetchGraphContent e endpoint attempt w)) \<le> 2"
  using notionApi_retry_bound [OF assms, of "method" endpoint body]
    apiRequest_retry_bound [OF assms, of endpoint opts]
    fetchGraphContent_retry_bound [OF assms, of endpoint]
    notionApi_attempts [OF assms(1), of "method" endpoint body attempt]
    apiRequest_attempts [OF assms(1), of endpoint opts attempt]
    fetchGraphContent_attempts [OF assms(1), of endpoint attempt]
  by blast

text \<open>The grant flow of a service that approves the request at once.\<close>

lemma ensureGrant_auto_approved:
  \<open>fst (ensureGrant NotionQuery (example_env (broker ''{"autoApproved":true}'' pa))
     (fetched (example_env (broker ''{"autoApproved":true}'' pa)) search_request logged_in_world))
   = Return ()\<close>
  by (simp add: ensureGrant_def requestGrant_example [OF _ parse_autoApproved])

text \<open>
  Witness of claim C1: the downstream refuses every search, the auth service approves
  the grant request automatically; the search is made twice and the process exits.
\<close>

theorem C1_witness:
  \<open>fst (notionApi (example_env (broker ''{"autoApproved":true}'' ''{"status":"approved"}''))
          ''POST'' ''/v1/search'' (Some (JObj [])) 0 logged_in_world) = Exit 1
   \<and> attempts search_request logged_in_world
        (snd (notionApi (example_env (broker ''{"autoApproved":true}'' ''{"status":"approved"}''))
                ''POST'' ''/v1/search'' (Some (JObj [])) 0 logged_in_world)) = 2\<close>
  using C1_retry_bound
    [of \<open>example_env (broker ''{"autoApproved":true}'' ''{"status":"approved"}'')\<close>
       logged_in_world "''sess-abc''" "''POST''" "''/v1/search''" "Some (JObj [])",
     OF logged_in_session, THEN conjunct1]
  by (simp add: search_request_eq broker_always_403 ensureGrant_auto_approved)

subsection \<open>A grant request that is denied\<close>

lemma poll_step_denied_example:
  assumes "files w = files logged_in_world"
  shows \<open>poll_step c (example_env (broker ga ''{"status":"denied"}'')) example_pollUrl ''sess-abc''
            lastStatus w
         = Done (Throw (Error [Val (Some (JStr ''Authorization denied.''))]),
                 fetched (example_env (broker ga ''{"status":"denied"}''))
                   (poll_request example_pollUrl ''sess-abc'') w)\<close>
proof -
  let ?e = \<open>example_env (broker ga ''{"status":"denied"}'')\<close>
  have \<open>network ?e (fetches w) (poll_request example_pollUrl ''sess-abc'')
          = Some (answer 200 ''{"status":"denied"}'', 100)\<close>
    by (simp add: broker_poll)
  from fetch_Some [OF this] show ?thesis
    by (simp add: poll_step_def ok_def parse_denied jor_def)
qed

lemma waitForGrantApproval_denied_example:
  assumes "files w = files logged_in_world"
  shows \<open>fst (waitForGrantApproval c (example_env (broker ga ''{"status":"denied"}''))
                example_pollUrl None w)
         = Throw (Error [Val (Some (JStr ''Authorization denied.''))])\<close>
proof -
  let ?e = \<open>example_env (broker ga ''{"status":"denied"}'')\<close>
  have "fst (poll_loop c ?e example_pollUrl ''sess-abc'' (Some (clock w + 300000)) (Some JNull) w)
          = Throw (Error [Val (Some (JStr ''Authorization denied.''))])"
    by (subst poll_loop_unfold)
       (simp add: before_deadline_def poll_step_denied_example [OF assms])
  then show ?thesis
    by (simp add: waitForGrantApproval_def assms logged_in_session grant_deadline_def)
qed

lemma ensureGrant_denied:
  assumes "files w = files logged_in_world"
    and "example_parse ga
           = Some (JObj [(''pollUrl'', JStr ''https://auth.freshhub.ai/api/auth-request/r1''),
                         (''approveUrl'', JStr ''https://auth.freshhub.ai/approve/r1'')])"
  shows \<open>fst (ensureGrant NotionQuery (example_env (broker ga ''{"status":"denied"}'')) w)
   = Throw (Error [Val (Some (JStr ''Authorization denied.''))])\<close>
  (is "fst (ensureGrant NotionQuery ?e w) = ?x")
proof -
  let ?request = "JObj [(''pollUrl'', JStr ''https://auth.freshhub.ai/api/auth-request/r1''),
                        (''approveUrl'', JStr ''https://auth.freshhub.ai/approve/r1'')]"
  let ?w2 = "fetched ?e (grant_request NotionQuery ?e ''sess-abc'') w"
  let ?w3 = "console_error
               [[Lit ''Authorization required for '', Lit (service_name NotionQuery ?e), Lit '' access.''],
                [Lit ''Approve at: '', Val (jget ?request ''approveUrl'')],
                [Lit ''Waiting for approval...'']] ?w2"
  have rg: "requestGrant NotionQuery ?e w = (Return ?request, ?w2)"
    by (rule requestGrant_example [OF assms])
  have pu: "jget ?request ''pollUrl'' = example_pollUrl" "jget ?request ''expiresAt'' = None"
    "\<not> truthy (jget ?request ''autoApproved'')"
    by (simp_all add: example_pollUrl_def)
  have f3: "files ?w3 = files logged_in_world" using assms(1) by simp
  obtain w4 where wf: "waitForGrantApproval NotionQuery ?e example_pollUrl None ?w3 = (?x, w4)"
    using waitForGrantApproval_denied_example [OF f3, of NotionQuery ga]
    by (cases "waitForGrantApproval NotionQuery ?e example_pollUrl None ?w3") simp
  show ?thesis
    using wf unfolding ensureGrant_def rg by (simp add: example_pollUrl_def)
qed

lemma ensureGrant_denied_example:
  \<open>fst (ensureGrant NotionQuery
          (example_env (broker
             ''{"pollUrl":"https://auth.freshhub.ai/api/auth-request/r1","approveUrl":"https://auth.freshhub.ai/approve/r1"}''
             ''{"status":"denied"}''))
          (fetched
             (example_env (broker
                ''{"pollUrl":"https://auth.freshhub.ai/api/auth-request/r1","approveUrl":"https://auth.freshhub.ai/approve/r1"}''
                ''{"status":"denied"}''))
             search_request logged_in_world))
   = Throw (Error [Val (Some (JStr ''Authorization denied.''))])\<close>
  by (rule ensureGrant_denied [OF _ parse_pending_request]) (simp add: fetched_def)

text \<open>
  Counterexample to claim C1 as stated: the downstream always answers 403 with the
  retryable error \<^verbatim>\<open>no_grant\<close> and automatic grant requests are enabled, but the operator
  denies the grant request. \<^verbatim>\<open>ensureGrant\<close> throws, the call of \<^verbatim>\<open>notionApi\<close> throws with
  it, and the search was attempted once, not twice.
\<close>

theorem C1_counterexample:
  \<open>always_403
     (example_env (broker
        ''{"pollUrl":"https://auth.freshhub.ai/api/auth-request/r1","approveUrl":"https://auth.freshhub.ai/approve/r1"}''
        ''{"status":"denied"}''))
     (notion_request
        (example_env (broker
           ''{"pollUrl":"https://auth.freshhub.ai/api/auth-request/r1","approveUrl":"https://auth.freshhub.ai/approve/r1"}''
           ''{"status":"denied"}''))
        ''POST'' ''/v1/search'' (Some (JObj [])) ''sess-abc'')
     notion_isAutoRequestError
   \<and> AUTO_REQUEST_ENABLED
       (example_env (broker
          ''{"pollUrl":"https://auth.freshhub.ai/api/auth-request/r1","approveUrl":"https://auth.freshhub.ai/approve/r1"}''
          ''{"status":"denied"}''))
   \<and> fst (notionApi
       (example_env (broker
          ''{"pollUrl":"https://auth.freshhub.ai/api/auth-request/r1","approveUrl":"https://auth.freshhub.ai/approve/r1"}''
          ''{"status":"denied"}''))
       ''POST'' ''/v1/search'' (Some (JObj [])) 0 logged_in_world)
     = Throw (Error [Val (Some (JStr ''Authorization denied.''))])
   \<and> attempts search_request logged_in_world
       (snd (notionApi
          (example_env (broker
             ''{"pollUrl":"https://auth.freshhub.ai/api/auth-request/r1","approveUrl":"https://auth.freshhub.ai/approve/r1"}''
             ''{"status":"denied"}''))
          ''POST'' ''/v1/search'' (Some (JObj [])) 0 logged_in_world)) = 1\<close>
  using notionApi_retry_bound
    [of \<open>example_env (broker
          ''{"pollUrl":"https://auth.freshhub.ai/api/auth-request/r1","approveUrl":"https://auth.freshhub.ai/approve/r1"}''
          ''{"status":"denied"}'')\<close>
       logged_in_world "''sess-abc''" "''POST''" "''/v1/search''" "Some (JObj [])",
     OF logged_in_session]
  by (simp add: search_request_eq broker_always_403 ensureGrant_denied_example)

section \<open>Properties of the issued requests\<close>

lemma notion_request_headers:
  "map_of (rq_headers (notion_request e method endpoint body s)) ''X-Agent-Session'' = Some s"
  "(map_of (rq_headers (notion_request e method endpoint body s)) ''Content-Type'' \<noteq> None)
     = (body \<noteq> None)"
  "(rq_body (notion_request e method endpoint body s) \<noteq> NoBody) = (body \<noteq> None)"
  by (cases body; simp add: notion_request_def)+

lemma office_request_headers:
  "map_of (rq_headers (office_request e endpoint opts s)) ''X-Agent-Session'' \<noteq> None"
  "map_of (rq_headers (office_request e endpoint opts s)) ''Content-Type'' \<noteq> None"
  "(case o_headers opts of None \<Rightarrow> True | Some hs \<Rightarrow> map_of hs ''X-Agent-Session'' = None)
     \<Longrightarrow> map_of (rq_headers (office_request e endpoint opts s)) ''X-Agent-Session'' = Some s"
  "rq_body (office_request e endpoint opts s) = o_body opts"
  by (auto simp: office_request_def spread_def AList.merge_conv' map_add_def
        split: option.splits)

lemma content_request_headers:
  "map_of (rq_headers (content_request e endpoint s)) ''X-Agent-Session'' = Some s"
  "map_of (rq_headers (content_request e endpoint s)) ''Content-Type'' = None"
  "rq_body (content_request e endpoint s) = NoBody"
  by (simp_all add: content_request_def)

text \<open>
  Claim C10. With a session \<open>s\<close> loaded, the first thing a pipeline call adds to the trace
  is the \<^verbatim>\<open>fetch\<close> of its request, and every later \<^verbatim>\<open>fetch\<close> of the call is that same request
  again or a request of the grant flow. The request of \<^verbatim>\<open>notionApi\<close> carries the session
  header with value \<open>s\<close>, and it has a content type exactly when the call has a body.
  The request of \<^verbatim>\<open>fetchGraphContent\<close> carries the session header, no content type and no
  body. The request of \<^verbatim>\<open>apiRequest\<close> carries a session header (with value \<open>s\<close> unless
  the caller's own headers set one) and it always has a content type, whatever its body.
\<close>

theorem C10_request_headers:
  assumes "getAgentSession e (files w) = Some s"
  shows
    "(extends w (snd (notionApi e method endpoint body attempt w))
      \<and> hd (added w (snd (notionApi e method endpoint body attempt w)))
          = Fetch (notion_request e method endpoint body s)
      \<and> pipeline_traffic (notion_request e method endpoint body s)
          (added w (snd (notionApi e method endpoint body attempt w)))
      \<and> map_of (rq_headers (notion_request e method endpoint body s)) ''X-Agent-Session'' = Some s
      \<and> ((map_of (rq_headers (notion_request e method endpoint body s)) ''Content-Type'' \<noteq> None)
           = (body \<noteq> None))
      \<and> ((rq_body (notion_request e method endpoint body s) \<noteq> NoBody) = (body \<noteq> None)))
   \<and> (extends w (snd (fetchGraphContent e endpoint attempt w))
      \<and> hd (added w (snd (fetchGraphContent e endpoint attempt w)))
          = Fetch (content_request e endpoint s)
      \<and> pipeline_traffic (content_request e endpoint s)
          (added w (snd (fetchGraphContent e endpoint attempt w)))
      \<and> map_of (rq_headers (content_request e endpoint s)) ''X-Agent-Session'' = Some s
      \<and> map_of (rq_headers (content_request e endpoint s)) ''Content-Type'' = None
      \<and> rq_body (content_request e endpoint s) = NoBody)
   \<and> (extends w (snd (apiRequest e endpoint opts attempt w))
      \<and> hd (added w (snd (apiRequest e endpoint opts attempt w)))
          = Fetch (office_request e endpoint opts s)
      \<and> pipeline_traffic (office_request e endpoint opts s)
          (added w (snd (apiRequest e endpoint opts attempt w)))
      \<and> map_of (rq_headers (office_request e endpoint opts s)) ''X-Agent-Session'' \<noteq> None
      \<and> ((case o_headers opts of None \<Rightarrow> True
            | Some hs \<Rightarrow> map_of hs ''X-Agent-Session'' = None) \<longrightarrow>
          map_of (rq_headers (office_request e endpoint opts s)) ''X-Agent-Session'' = Some s)
      \<and> map_of (rq_headers (office_request e endpoint opts s)) ''Content-Type'' \<noteq> None
      \<and> rq_body (office_request e endpoint opts s) = o_body opts)"
  using notionApi_traffic [OF assms, of "method" endpoint body attempt]
    fetchGraphContent_traffic [OF assms, of endpoint attempt]
    apiRequest_traffic [OF assms, of endpoint opts attempt]
    notion_request_headers [of e "method" endpoint body s]
    content_request_headers [where e = e and endpoint = endpoint and s = s]
    office_request_headers [where e = e and endpoint = endpoint and opts = opts and s = s]
  by blast

text \<open>A call of \<^verbatim>\<open>apiRequest\<close> that is answered with \<^verbatim>\<open>200 {}\<close> at once.\<close>

lemma apiRequest_ok_example:
  "apiRequest (example_env ok_network) endpoint opts 0 logged_in_world
     = (Return (JObj []),
        fetched (example_env ok_network)
          (office_request (example_env ok_network) endpoint opts ''sess-abc'') logged_in_world)"
proof -
  let ?e = "example_env ok_network"
  have "network ?e (fetches logged_in_world) (office_request ?e endpoint opts ''sess-abc'')
          = Some (answer 200 ''{}'', 80)"
    by (simp add: ok_network_def)
  from fetch_Some [OF this] show ?thesis
    by (subst apiRequest.simps)
       (simp add: logged_in_session auth_status_def ok_def example_parse_def)
qed

text \<open>
  Witness of claim C10: a \<^verbatim>\<open>notionApi\<close> GET without body, and an \<^verbatim>\<open>apiRequest\<close> POST with a
  body and a header of the caller.
\<close>

theorem C10_witness:
  "hd (added logged_in_world
         (snd (notionApi (example_env ok_network) ''GET'' ''/v1/users/me'' None 0 logged_in_world)))
     = Fetch \<lparr>rq_url = [Lit ''https://auth.freshhub.ai/api/proxy/notion/v1/users/me''],
              rq_method = ''GET'',
              rq_headers = [(''X-Agent-Session'', ''sess-abc''), (''Notion-Version'', ''2022-06-28'')],
              rq_body = NoBody, rq_redirect = ''follow''\<rparr>
   \<and> hd (added logged_in_world
         (snd (apiRequest (example_env ok_network) ''/v1/users/me''
                 \<lparr>o_method = Some ''POST'', o_headers = Some [(''Accept'', ''application/json'')],
                  o_body = JsonBody (JObj [])\<rparr> 0 logged_in_world)))
     = Fetch \<lparr>rq_url = [Lit ''https://auth.freshhub.ai/proxy/msgraph/v1/users/me''],
              rq_method = ''POST'',
              rq_headers = [(''X-Agent-Session'', ''sess-abc''),
                            (''Content-Type'', ''application/json''),
                            (''Accept'', ''application/json'')],
              rq_body = JsonBody (JObj []), rq_redirect = ''manual''\<rparr>
   \<and> map_of (rq_headers (office_request (example_env ok_network) ''/v1/users/me''
                 \<lparr>o_method = Some ''POST'', o_headers = Some [(''Accept'', ''application/json'')],
                  o_body = JsonBody (JObj [])\<rparr> ''sess-abc'')) ''X-Agent-Session''
     = Some ''sess-abc''"
  using C10_request_headers
      [of "example_env ok_network" logged_in_world "''sess-abc''"
         "''GET''" "''/v1/users/me''" None 0
         "\<lparr>o_method = Some ''POST'', o_headers = Some [(''Accept'', ''application/json'')],
           o_body = JsonBody (JObj [])\<rparr>",
       OF logged_in_session]
  by (simp add: notion_request_def office_request_def spread_def)

text \<open>
  Counterexample to claim C10 as stated: \<^verbatim>\<open>apiRequest\<close> called without a body, as
  \<^verbatim>\<open>driveList\<close> and \<^verbatim>\<open>driveDownload\<close> call it, sends \<^verbatim>\<open>Content-Type: application/json\<close>.
\<close>

theorem C10_counterexample:
  "o_body \<lparr>o_method = None, o_headers = None, o_body = NoBody\<rparr> = NoBody
   \<and> trace (snd (apiRequest (example_env ok_network) ''/me/drive/root/children''
                   \<lparr>o_method = None, o_headers = None, o_body = NoBody\<rparr> 0 logged_in_world))
     = [Fetch \<lparr>rq_url = [Lit ''https://auth.freshhub.ai/proxy/msgraph/me/drive/root/children''],
               rq_method = ''GET'',
               rq_headers = [(''X-Agent-Session'', ''sess-abc''),
                             (''Content-Type'', ''application/json'')],
               rq_body = NoBody, rq_redirect = ''manual''\<rparr>]"
  by (simp add: apiRequest_ok_example office_request_def spread_def)

section \<open>Properties of content downloads\<close>

text \<open>
  Claim C9. When \<^verbatim>\<open>fetchGraphContent\<close> returns a 301 or 302 answer with a non-empty
  \<^verbatim>\<open>location\<close> header, the block that \<^verbatim>\<open>driveDownload\<close> and \<^verbatim>\<open>driveContent\<close> share adds
  exactly one event to the trace: the \<^verbatim>\<open>fetch\<close> of a GET request to that location which
  has no headers at all, so no \<^verbatim>\<open>X-Agent-Session\<close> header. The answer of that request is
  the result of the block, whatever its status: a second redirect is not followed by
  the code.
\<close>

theorem C9_redirect_followed_once:
  assumes "fetchGraphContent e (''/me/drive/items/'' @ itemId @ ''/content'') 0 w = (Return r, w1)"
    and "rs_status r = 301 \<or> rs_status r = 302"
    and "rs_location r = Some downloadUrl" and "downloadUrl \<noteq> []"
  shows "extends w1 (snd (fetchItemContent e itemId w))
    \<and> added w1 (snd (fetchItemContent e itemId w)) = [Fetch (download_request downloadUrl)]
    \<and> rq_url (download_request downloadUrl) = [Lit downloadUrl]
    \<and> rq_method (download_request downloadUrl) = ''GET''
    \<and> rq_headers (download_request downloadUrl) = []
    \<and> map_of (rq_headers (download_request downloadUrl)) ''X-Agent-Session'' = None
    \<and> fst (fetchItemContent e itemId w)
        = (case network e (fetches w1) (download_request downloadUrl) of
             None \<Rightarrow> Throw FetchFailed
           | Some (r', ms) \<Rightarrow> Return r')"
proof -
  let ?rq = "download_request downloadUrl"
  have eq: "fetchItemContent e itemId w
          = (case fetch e ?rq w1 of (None, w2) \<Rightarrow> (Throw FetchFailed, w2)
             | (Some r', w2) \<Rightarrow> (Return r', w2))"
    using assms by (auto simp: fetchItemContent_def)
  have s: "snd (fetchItemContent e itemId w) = fetched e ?rq w1"
    unfolding eq using snd_fetch [of e ?rq w1]
    by (cases "fetch e ?rq w1") (auto split: option.splits)
  have f: "fst (fetchItemContent e itemId w)
        = (case network e (fetches w1) ?rq of None \<Rightarrow> Throw FetchFailed | Some (r', ms) \<Rightarrow> Return r')"
    unfolding eq by (simp add: fetch_def split: option.splits)
  from extendsI [of "fetched e ?rq w1" w1 "[Fetch ?rq]"] s f show ?thesis
    by (simp add: download_request_def)
qed

text \<open>The content request of the example is answered by a redirect.\<close>

lemma fetchGraphContent_redirect_example:
  "fetchGraphContent (example_env redirecting) endpoint 0 logged_in_world
     = (Return \<lparr>rs_status = 302, rs_statusText = ''Found'', rs_text = [],
                 rs_location = Some ''https://cdn.example/file?sig=abc''\<rparr>,
        fetched (example_env redirecting)
          (content_request (example_env redirecting) endpoint ''sess-abc'') logged_in_world)"
proof -
  let ?e = "example_env redirecting"
  have "network ?e (fetches logged_in_world) (content_request ?e endpoint ''sess-abc'')
          = Some (\<lparr>rs_status = 302, rs_statusText = ''Found'', rs_text = [],
                    rs_location = Some ''https://cdn.example/file?sig=abc''\<rparr>, 90)"
    by (simp add: redirecting_def content_request_def)
  from fetch_Some [OF this] show ?thesis
    by (subst fetchGraphContent.simps) (simp add: logged_in_session auth_status_def)
qed

text \<open>
  Witness of claim C9: the authenticated content request, then one request to the
  pre-signed URL without headers.
\<close>

theorem C9_witness:
  "trace (snd (fetchItemContent (example_env redirecting) ''42'' logged_in_world))
     = [Fetch \<lparr>rq_url = [Lit ''https://auth.freshhub.ai/proxy/msgraph/me/drive/items/42/content''],
               rq_method = ''GET'', rq_headers = [(''X-Agent-Session'', ''sess-abc'')],
               rq_body = NoBody, rq_redirect = ''manual''\<rparr>,
        Fetch \<lparr>rq_url = [Lit ''https://cdn.example/file?sig=abc''],
               rq_method = ''GET'', rq_headers = [],
               rq_body = NoBody, rq_redirect = ''follow''\<rparr>]
   \<and> fst (fetchItemContent (example_env redirecting) ''42'' logged_in_world)
     = Return (answer 200 ''hello'')"
  using C9_redirect_followed_once
    [where e = "example_env redirecting" and w = logged_in_world and itemId = "''42''"
       and downloadUrl = "''https://cdn.example/file?sig=abc''",
     OF fetchGraphContent_redirect_example]
  by (simp add: extends_def content_request_def download_request_def redirecting_def)

end
